theory Spec2Isabelle
  imports Main "HOL-Library.AList" "HOL-Library.Multiset"
begin

section \<open>JavaScript values\<close>

text \<open>
  The server is TypeScript running on JavaScript values; request bodies are untyped
  (\<^verbatim>\<open>req.body\<close> is \<^verbatim>\<open>any\<close>), so records are modelled as the runtime has them: an object
  is a list of own properties in insertion order, read by key.

  Numbers of this program are identifiers, counters, counts and millisecond time stamps;
  they are modelled as exact integers (a JavaScript number is exact on integers up to
  \<open>2^53\<close>; numbers with a fraction are not modelled). \<open>NaN\<close>, which \<^verbatim>\<open>parseInt\<close>
  produces, is a separate value of \<open>jsnum\<close>. A \<^verbatim>\<open>Date\<close> is its time value in
  milliseconds. Strings are lists of characters; a character stands for the UTF-16 code
  unit of the same number, so the strings modelled are those whose code units are below
  256.
\<close>

datatype jsnum = NaN | Num int

datatype jsval =
    JUndefined
  | JNull
  | JBool bool
  | JNum int
  | JStr string
  | JDate int
  | JArr "jsval list"
  | JObj "(string \<times> jsval) list"

type_synonym obj = "(string \<times> jsval) list"

text \<open>Property read \<^verbatim>\<open>o.k\<close> on an object: \<^verbatim>\<open>undefined\<close> when the property is absent.\<close>

definition getProp :: "obj \<Rightarrow> string \<Rightarrow> jsval" where
  "getProp ob k = (case map_of ob k of None \<Rightarrow> JUndefined | Some v \<Rightarrow> v)"

text \<open>
  Object spread \<^verbatim>\<open>{ ...a, ...b }\<close>: the properties of \<open>a\<close>, each key of \<open>b\<close> then
  replacing the value in place or being appended.
\<close>

definition spread :: "obj \<Rightarrow> obj \<Rightarrow> obj" where
  "spread a b = AList.merge a b"

text \<open>A property written after a spread in an object literal: \<^verbatim>\<open>{ ...a, k: v }\<close>.\<close>

definition setProp :: "string \<Rightarrow> jsval \<Rightarrow> obj \<Rightarrow> obj" where
  "setProp k v ob = AList.update k v ob"

text \<open>Rest destructuring \<^verbatim>\<open>const { k, ...rest } = o\<close>: every own property but \<open>k\<close>.\<close>

definition omitProp :: "string \<Rightarrow> obj \<Rightarrow> obj" where
  "omitProp k ob = AList.delete k ob"

text \<open>Truthiness, as tested by \<^verbatim>\<open>!key\<close> and \<^verbatim>\<open>c ? a : b\<close>.\<close>

fun truthy :: "jsval \<Rightarrow> bool" where
  "truthy JUndefined = False"
| "truthy JNull = False"
| "truthy (JBool b) = b"
| "truthy (JNum n) = (n \<noteq> 0)"
| "truthy (JStr s) = (s \<noteq> [])"
| "truthy (JDate t) = True"
| "truthy (JArr xs) = True"
| "truthy (JObj ob) = True"

text \<open>
  Strict equality \<^verbatim>\<open>a === b\<close>. Primitive values are compared by value. Objects, arrays
  and dates are compared by reference; the operands compared in this program come from
  different request bodies (or from a stored record and a request body), which are never
  the same reference, so the comparison is false for them.
\<close>

fun strictEq :: "jsval \<Rightarrow> jsval \<Rightarrow> bool" where
  "strictEq JUndefined JUndefined = True"
| "strictEq JNull JNull = True"
| "strictEq (JBool a) (JBool b) = (a = b)"
| "strictEq (JNum a) (JNum b) = (a = b)"
| "strictEq (JStr a) (JStr b) = (a = b)"
| "strictEq _ _ = False"

text \<open>
  A value used as the \<^verbatim>\<open>number\<close> key of a \<^verbatim>\<open>Map\<close> lookup. A value that is not a number
  equals no key of a \<^verbatim>\<open>Map<number, T>\<close>; it is sent to \<open>NaN\<close>, which the stores never
  hold as a key either.
\<close>

fun keyOf :: "jsval \<Rightarrow> jsnum" where
  "keyOf (JNum n) = Num n"
| "keyOf _ = NaN"

subsection \<open>parseInt\<close>

text \<open>
  \<^verbatim>\<open>parseInt(s)\<close> without a radix: leading white space is skipped, then an optional
  sign, then an optional \<^verbatim>\<open>0x\<close> prefix (radix 16); the longest run of digits is read and
  the rest ignored. No digit at all gives \<open>NaN\<close>.

  White space is what ECMAScript strips (\<^verbatim>\<open>WhiteSpace\<close> and \<^verbatim>\<open>LineTerminator\<close>): of the
  code units below 256 these are tab (U+0009), line feed (U+000A), vertical tab (U+000B),
  form feed (U+000C), carriage return (U+000D), space (U+0020) and no-break space
  (U+00A0). The other white-space characters of Unicode (U+1680, U+2000 to U+200A, U+2028,
  U+2029, U+202F, U+205F, U+3000, U+FEFF) are above 255 and so in no string of the model.

  The value read is the exact integer; the built-in rounds it to the nearest number when
  it exceeds \<open>2^53\<close>.
\<close>

definition isSpace :: "char \<Rightarrow> bool" where
  "isSpace c =
     (c \<in> set [CHR 0x09, CHR 0x0A, CHR 0x0B, CHR 0x0C, CHR 0x0D, CHR 0x20, CHR 0xA0])"

definition digitVal :: "char \<Rightarrow> nat option" where
  "digitVal c =
     (let n = (of_char c :: nat) in
      if 48 \<le> n \<and> n \<le> 57 then Some (n - 48)
      else if 97 \<le> n \<and> n \<le> 122 then Some (n - 87)
      else if 65 \<le> n \<and> n \<le> 90 then Some (n - 55)
      else None)"

definition isDigit :: "nat \<Rightarrow> char \<Rightarrow> bool" where
  "isDigit r c = (case digitVal c of None \<Rightarrow> False | Some d \<Rightarrow> d < r)"

definition digitsVal :: "nat \<Rightarrow> string \<Rightarrow> int" where
  "digitsVal r ds = foldl (\<lambda>acc c. acc * int r + int (the (digitVal c))) 0 ds"

definition parseDigits :: "nat \<Rightarrow> string \<Rightarrow> jsnum" where
  "parseDigits r s =
     (let z = takeWhile (isDigit r) s in
      if z = [] then NaN else Num (digitsVal r z))"

definition negNum :: "jsnum \<Rightarrow> jsnum" where
  "negNum x = (case x of NaN \<Rightarrow> NaN | Num n \<Rightarrow> Num (- n))"

definition parseUnsigned :: "string \<Rightarrow> jsnum" where
  "parseUnsigned s =
     (if take 2 s = ''0x'' \<or> take 2 s = ''0X'' then parseDigits 16 (drop 2 s)
      else parseDigits 10 s)"

definition parseInt :: "string \<Rightarrow> jsnum" where
  "parseInt str =
     (let s = dropWhile isSpace str in
      case s of
        [] \<Rightarrow> NaN
      | c # rest \<Rightarrow>
          if c = CHR ''-'' then negNum (parseUnsigned rest)
          else if c = CHR ''+'' then parseUnsigned rest
          else parseUnsigned s)"

section \<open>The in-memory store\<close>

text \<open>
  A \<^verbatim>\<open>Map<number, T>\<close> keeps its entries in insertion order: \<^verbatim>\<open>set\<close> on a present key
  replaces the value in place, on a new key appends; \<^verbatim>\<open>delete\<close> answers whether the key
  was present; \<^verbatim>\<open>values()\<close> lists the values in entry order.
\<close>

type_synonym 'v jsmap = "(jsnum \<times> 'v) list"

definition mapGet :: "'v jsmap \<Rightarrow> jsnum \<Rightarrow> 'v option" where
  "mapGet m k = map_of m k"

definition mapSet :: "'v jsmap \<Rightarrow> jsnum \<Rightarrow> 'v \<Rightarrow> 'v jsmap" where
  "mapSet m k v = AList.update k v m"

definition mapDelete :: "'v jsmap \<Rightarrow> jsnum \<Rightarrow> bool \<times> 'v jsmap" where
  "mapDelete m k = (map_of m k \<noteq> None, AList.delete k m)"

definition mapValues :: "'v jsmap \<Rightarrow> 'v list" where
  "mapValues m = map snd m"

record MemStorage =
  usersData :: "obj jsmap"
  eventsData :: "obj jsmap"
  studiesData :: "obj jsmap"
  postsData :: "obj jsmap"
  forumTopicsData :: "obj jsmap"
  forumRepliesData :: "obj jsmap"
  siteSettingsData :: "obj jsmap"
  userIdCounter :: int
  eventIdCounter :: int
  studyIdCounter :: int
  postIdCounter :: int
  forumTopicIdCounter :: int
  forumReplyIdCounter :: int
  siteSettingIdCounter :: int

text \<open>The constructor: seven empty maps, every counter at 1.\<close>

definition newMemStorage :: MemStorage where
  "newMemStorage =
     \<lparr> usersData = [], eventsData = [], studiesData = [], postsData = [],
       forumTopicsData = [], forumRepliesData = [], siteSettingsData = [],
       userIdCounter = 1, eventIdCounter = 1, studyIdCounter = 1, postIdCounter = 1,
       forumTopicIdCounter = 1, forumReplyIdCounter = 1, siteSettingIdCounter = 1 \<rparr>"

text \<open>
  Every method that reads the clock (\<^verbatim>\<open>new Date()\<close>) takes the reading \<open>now\<close> as an
  argument. A method that mutates the store returns its result with the new store.
\<close>

subsection \<open>Users\<close>

definition getUser :: "MemStorage \<Rightarrow> jsnum \<Rightarrow> obj option" where
  "getUser s i = mapGet (usersData s) i"

definition getUserByUsername :: "MemStorage \<Rightarrow> jsval \<Rightarrow> obj option" where
  "getUserByUsername s username =
     find (\<lambda>user. strictEq (getProp user ''username'') username) (mapValues (usersData s))"

definition createUser :: "int \<Rightarrow> MemStorage \<Rightarrow> obj \<Rightarrow> obj \<times> MemStorage" where
  "createUser now s insertUser =
     (let i = userIdCounter s;
          user = setProp ''createdAt'' (JDate now) (setProp ''id'' (JNum i) insertUser)
      in (user, s\<lparr>usersData := mapSet (usersData s) (Num i) user, userIdCounter := i + 1\<rparr>))"

definition updateUser :: "MemStorage \<Rightarrow> jsnum \<Rightarrow> obj \<Rightarrow> obj option \<times> MemStorage" where
  "updateUser s i userData =
     (case mapGet (usersData s) i of
        None \<Rightarrow> (None, s)
      | Some existingUser \<Rightarrow>
          (let updatedUser = spread existingUser userData
           in (Some updatedUser, s\<lparr>usersData := mapSet (usersData s) i updatedUser\<rparr>)))"

definition getAllUsers :: "MemStorage \<Rightarrow> obj list" where
  "getAllUsers s = mapValues (usersData s)"

subsection \<open>Events\<close>

definition getEvent :: "MemStorage \<Rightarrow> jsnum \<Rightarrow> obj option" where
  "getEvent s i = mapGet (eventsData s) i"

definition createEvent :: "int \<Rightarrow> MemStorage \<Rightarrow> obj \<Rightarrow> obj \<times> MemStorage" where
  "createEvent now s eventData =
     (let i = eventIdCounter s;
          event = setProp ''createdAt'' (JDate now) (setProp ''id'' (JNum i) eventData)
      in (event, s\<lparr>eventsData := mapSet (eventsData s) (Num i) event, eventIdCounter := i + 1\<rparr>))"

definition updateEvent :: "MemStorage \<Rightarrow> jsnum \<Rightarrow> obj \<Rightarrow> obj option \<times> MemStorage" where
  "updateEvent s i eventData =
     (case mapGet (eventsData s) i of
        None \<Rightarrow> (None, s)
      | Some existingEvent \<Rightarrow>
          (let updatedEvent = spread existingEvent eventData
           in (Some updatedEvent, s\<lparr>eventsData := mapSet (eventsData s) i updatedEvent\<rparr>)))"

definition deleteEvent :: "MemStorage \<Rightarrow> jsnum \<Rightarrow> bool \<times> MemStorage" where
  "deleteEvent s i =
     (let (r, m) = mapDelete (eventsData s) i in (r, s\<lparr>eventsData := m\<rparr>))"


subsection \<open>Studies\<close>

definition getStudy :: "MemStorage \<Rightarrow> jsnum \<Rightarrow> obj option" where
  "getStudy s i = mapGet (studiesData s) i"

definition createStudy :: "int \<Rightarrow> MemStorage \<Rightarrow> obj \<Rightarrow> obj \<times> MemStorage" where
  "createStudy now s studyData =
     (let i = studyIdCounter s;
          study = setProp ''createdAt'' (JDate now) (setProp ''id'' (JNum i) studyData)
      in (study, s\<lparr>studiesData := mapSet (studiesData s) (Num i) study, studyIdCounter := i + 1\<rparr>))"

definition updateStudy :: "MemStorage \<Rightarrow> jsnum \<Rightarrow> obj \<Rightarrow> obj option \<times> MemStorage" where
  "updateStudy s i studyData =
     (case mapGet (studiesData s) i of
        None \<Rightarrow> (None, s)
      | Some existingStudy \<Rightarrow>
          (let updatedStudy = spread existingStudy studyData
           in (Some updatedStudy, s\<lparr>studiesData := mapSet (studiesData s) i updatedStudy\<rparr>)))"

definition deleteStudy :: "MemStorage \<Rightarrow> jsnum \<Rightarrow> bool \<times> MemStorage" where
  "deleteStudy s i =
     (let (r, m) = mapDelete (studiesData s) i in (r, s\<lparr>studiesData := m\<rparr>))"

definition getAllStudies :: "MemStorage \<Rightarrow> obj list" where
  "getAllStudies s = mapValues (studiesData s)"

subsection \<open>Posts\<close>

definition getPost :: "MemStorage \<Rightarrow> jsnum \<Rightarrow> obj option" where
  "getPost s i = mapGet (postsData s) i"

definition createPost :: "int \<Rightarrow> MemStorage \<Rightarrow> obj \<Rightarrow> obj \<times> MemStorage" where
  "createPost now s postData =
     (let i = postIdCounter s;
          post = setProp ''createdAt'' (JDate now) (setProp ''id'' (JNum i) postData)
      in (post, s\<lparr>postsData := mapSet (postsData s) (Num i) post, postIdCounter := i + 1\<rparr>))"

definition updatePost :: "MemStorage \<Rightarrow> jsnum \<Rightarrow> obj \<Rightarrow> obj option \<times> MemStorage" where
  "updatePost s i postData =
     (case mapGet (postsData s) i of
        None \<Rightarrow> (None, s)
      | Some existingPost \<Rightarrow>
          (let updatedPost = spread existingPost postData
           in (Some updatedPost, s\<lparr>postsData := mapSet (postsData s) i updatedPost\<rparr>)))"

definition deletePost :: "MemStorage \<Rightarrow> jsnum \<Rightarrow> bool \<times> MemStorage" where
  "deletePost s i =
     (let (r, m) = mapDelete (postsData s) i in (r, s\<lparr>postsData := m\<rparr>))"

definition getAllPosts :: "MemStorage \<Rightarrow> obj list" where
  "getAllPosts s = mapValues (postsData s)"

subsection \<open>Forum topics\<close>

definition getForumTopic :: "MemStorage \<Rightarrow> jsnum \<Rightarrow> obj option" where
  "getForumTopic s i = mapGet (forumTopicsData s) i"

definition createForumTopic :: "int \<Rightarrow> MemStorage \<Rightarrow> obj \<Rightarrow> obj \<times> MemStorage" where
  "createForumTopic now s topicData =
     (let i = forumTopicIdCounter s;
          topic = setProp ''createdAt'' (JDate now) (setProp ''id'' (JNum i) topicData)
      in (topic, s\<lparr>forumTopicsData := mapSet (forumTopicsData s) (Num i) topic, forumTopicIdCounter := i + 1\<rparr>))"

definition updateForumTopic :: "MemStorage \<Rightarrow> jsnum \<Rightarrow> obj \<Rightarrow> obj option \<times> MemStorage" where
  "updateForumTopic s i topicData =
     (case mapGet (forumTopicsData s) i of
        None \<Rightarrow> (None, s)
      | Some existingTopic \<Rightarrow>
          (let updatedTopic = spread existingTopic topicData
           in (Some updatedTopic, s\<lparr>forumTopicsData := mapSet (forumTopicsData s) i updatedTopic\<rparr>)))"

definition deleteForumTopic :: "MemStorage \<Rightarrow> jsnum \<Rightarrow> bool \<times> MemStorage" where
  "deleteForumTopic s i =
     (let (r, m) = mapDelete (forumTopicsData s) i in (r, s\<lparr>forumTopicsData := m\<rparr>))"

definition getAllForumTopics :: "MemStorage \<Rightarrow> obj list" where
  "getAllForumTopics s = mapValues (forumTopicsData s)"

subsection \<open>Forum replies\<close>

definition getForumReply :: "MemStorage \<Rightarrow> jsnum \<Rightarrow> obj option" where
  "getForumReply s i = mapGet (forumRepliesData s) i"

definition createForumReply :: "int \<Rightarrow> MemStorage \<Rightarrow> obj \<Rightarrow> obj \<times> MemStorage" where
  "createForumReply now s replyData =
     (let i = forumReplyIdCounter s;
          reply = setProp ''createdAt'' (JDate now) (setProp ''id'' (JNum i) replyData)
      in (reply, s\<lparr>forumRepliesData := mapSet (forumRepliesData s) (Num i) reply, forumReplyIdCounter := i + 1\<rparr>))"

definition updateForumReply :: "MemStorage \<Rightarrow> jsnum \<Rightarrow> obj \<Rightarrow> obj option \<times> MemStorage" where
  "updateForumReply s i replyData =
     (case mapGet (forumRepliesData s) i of
        None \<Rightarrow> (None, s)
      | Some existingReply \<Rightarrow>
          (let updatedReply = spread existingReply replyData
           in (Some updatedReply, s\<lparr>forumRepliesData := mapSet (forumRepliesData s) i updatedReply\<rparr>)))"

definition deleteForumReply :: "MemStorage \<Rightarrow> jsnum \<Rightarrow> bool \<times> MemStorage" where
  "deleteForumReply s i =
     (let (r, m) = mapDelete (forumRepliesData s) i in (r, s\<lparr>forumRepliesData := m\<rparr>))"

text \<open>The filter \<^verbatim>\<open>reply.topicId === topicId\<close>; \<open>NaN\<close> is strictly equal to nothing.\<close>

definition getForumRepliesByTopic :: "MemStorage \<Rightarrow> jsnum \<Rightarrow> obj list" where
  "getForumRepliesByTopic s topicId =
     (case topicId of
        NaN \<Rightarrow> []
      | Num n \<Rightarrow>
          filter (\<lambda>reply. strictEq (getProp reply ''topicId'') (JNum n))
            (mapValues (forumRepliesData s)))"

subsection \<open>Site settings\<close>

text \<open>
  \<^verbatim>\<open>getSiteSetting\<close> is a linear scan for the first record whose \<^verbatim>\<open>key\<close> is strictly
  equal to the argument. \<^verbatim>\<open>updateSiteSetting\<close> writes \<^verbatim>\<open>updatedAt\<close> after the merge.
\<close>

definition getSiteSetting :: "MemStorage \<Rightarrow> jsval \<Rightarrow> obj option" where
  "getSiteSetting s key =
     find (\<lambda>setting. strictEq (getProp setting ''key'') key) (mapValues (siteSettingsData s))"

definition createSiteSetting :: "int \<Rightarrow> MemStorage \<Rightarrow> obj \<Rightarrow> obj \<times> MemStorage" where
  "createSiteSetting now s settingData =
     (let i = siteSettingIdCounter s;
          setting = setProp ''updatedAt'' (JDate now) (setProp ''id'' (JNum i) settingData)
      in (setting,
          s\<lparr>siteSettingsData := mapSet (siteSettingsData s) (Num i) setting,
            siteSettingIdCounter := i + 1\<rparr>))"

definition updateSiteSetting ::
  "int \<Rightarrow> MemStorage \<Rightarrow> jsnum \<Rightarrow> obj \<Rightarrow> obj option \<times> MemStorage" where
  "updateSiteSetting now s i settingData =
     (case mapGet (siteSettingsData s) i of
        None \<Rightarrow> (None, s)
      | Some existingSetting \<Rightarrow>
          (let updatedSetting =
                 setProp ''updatedAt'' (JDate now) (spread existingSetting settingData)
           in (Some updatedSetting,
               s\<lparr>siteSettingsData := mapSet (siteSettingsData s) i updatedSetting\<rparr>)))"

definition getAllSiteSettings :: "MemStorage \<Rightarrow> obj list" where
  "getAllSiteSettings s = mapValues (siteSettingsData s)"

subsection \<open>Upcoming events\<close>

text \<open>
  \<^verbatim>\<open>new Date(v).getTime()\<close>, \<open>None\<close> standing for \<open>NaN\<close> (an invalid date). A
  \<^verbatim>\<open>Date\<close> is copied; a number is the time value when it is in the range of time values;
  \<^verbatim>\<open>null\<close> and booleans are converted to numbers; \<^verbatim>\<open>undefined\<close> is invalid. For strings,
  arrays and objects the result is what the platform's date parser makes of the value's
  string form; that parser is the parameter \<open>hostDate\<close>.
\<close>

fun dateTime :: "(jsval \<Rightarrow> int option) \<Rightarrow> jsval \<Rightarrow> int option" where
  "dateTime hostDate (JDate t) = Some t"
| "dateTime hostDate (JNum n) = (if \<bar>n\<bar> \<le> 8640000000000000 then Some n else None)"
| "dateTime hostDate JNull = Some 0"
| "dateTime hostDate (JBool b) = Some (if b then 1 else 0)"
| "dateTime hostDate JUndefined = None"
| "dateTime hostDate v = hostDate v"

definition startTimeOf :: "(jsval \<Rightarrow> int option) \<Rightarrow> obj \<Rightarrow> int option" where
  "startTimeOf hostDate event = dateTime hostDate (getProp event ''startTime'')"

text \<open>The filter \<^verbatim>\<open>new Date(event.startTime) > now\<close>: false when the date is invalid.\<close>

definition isUpcoming :: "(jsval \<Rightarrow> int option) \<Rightarrow> int \<Rightarrow> obj \<Rightarrow> bool" where
  "isUpcoming hostDate now event =
     (case startTimeOf hostDate event of None \<Rightarrow> False | Some t \<Rightarrow> now < t)"

text \<open>
  The comparator \<^verbatim>\<open>(a, b) => new Date(a.startTime).getTime() - new Date(b.startTime).getTime()\<close>;
  a \<open>NaN\<close> result counts as 0 for \<^verbatim>\<open>sort\<close>.
\<close>

definition compareStart :: "(jsval \<Rightarrow> int option) \<Rightarrow> obj \<Rightarrow> obj \<Rightarrow> int" where
  "compareStart hostDate a b =
     (case (startTimeOf hostDate a, startTimeOf hostDate b) of
        (Some x, Some y) \<Rightarrow> x - y
      | _ \<Rightarrow> 0)"

text \<open>
  \<^verbatim>\<open>Array.prototype.sort\<close> with a comparator is a stable sort: elements that compare
  equal keep their order. For a comparator that orders the elements consistently, as this
  one does on the filtered events, every stable sort gives the same list; it is written
  here as an insertion sort.
\<close>

fun insertBy :: "('a \<Rightarrow> 'a \<Rightarrow> int) \<Rightarrow> 'a \<Rightarrow> 'a list \<Rightarrow> 'a list" where
  "insertBy cmp x [] = [x]"
| "insertBy cmp x (y # ys) = (if cmp x y \<le> 0 then x # y # ys else y # insertBy cmp x ys)"

fun sortBy :: "('a \<Rightarrow> 'a \<Rightarrow> int) \<Rightarrow> 'a list \<Rightarrow> 'a list" where
  "sortBy cmp [] = []"
| "sortBy cmp (x # xs) = insertBy cmp x (sortBy cmp xs)"

text \<open>
  \<^verbatim>\<open>xs.slice(0, end)\<close>: \<open>NaN\<close> is taken as 0, a negative end counts from the end of
  the array, and the end is clamped to the length.
\<close>

fun slice0 :: "'a list \<Rightarrow> jsnum \<Rightarrow> 'a list" where
  "slice0 xs NaN = []"
| "slice0 xs (Num n) =
     (if n < 0 then take (nat (int (length xs) + n)) xs else take (nat n) xs)"

text \<open>
  The parameter \<^verbatim>\<open>count: number = 5\<close>, written \<open>cnt\<close>: \<open>None\<close> is the argument
  \<^verbatim>\<open>undefined\<close>, for which the default applies.
\<close>

definition getUpcomingEvents ::
  "(jsval \<Rightarrow> int option) \<Rightarrow> int \<Rightarrow> MemStorage \<Rightarrow> jsnum option \<Rightarrow> obj list" where
  "getUpcomingEvents hostDate now s cnt =
     (let c = (case cnt of None \<Rightarrow> Num 5 | Some n \<Rightarrow> n)
      in slice0
           (sortBy (compareStart hostDate)
              (filter (isUpcoming hostDate now) (mapValues (eventsData s))))
           c)"

section \<open>Routes\<close>

text \<open>
  A handler takes the store, the session's principal (\<open>None\<close> when the request is not
  authenticated) and the request's parameters, and returns the response sent with
  \<^verbatim>\<open>res.status(n).json(v)\<close> together with the store it leaves. The principal is what the
  handlers read of \<^verbatim>\<open>req.user\<close>: its \<^verbatim>\<open>id\<close> and its \<^verbatim>\<open>role\<close>. The body of a \<^verbatim>\<open>PATCH\<close>
  is a JSON object.
\<close>

record principal =
  uid :: int
  role :: string

record response =
  status :: nat
  body :: jsval

definition respond :: "nat \<Rightarrow> jsval \<Rightarrow> response" where
  "respond n v = \<lparr> status = n, body = v \<rparr>"

definition message :: "string \<Rightarrow> jsval" where
  "message m = JObj [(''message'', JStr m)]"

text \<open>The value given to \<^verbatim>\<open>json\<close> for a result that may be \<^verbatim>\<open>undefined\<close>.\<close>

definition optJson :: "obj option \<Rightarrow> jsval" where
  "optJson r = (case r of None \<Rightarrow> JUndefined | Some ob \<Rightarrow> JObj ob)"

text \<open>The two middlewares: each either passes the principal on or answers itself.\<close>

definition isAuthenticated ::
  "principal option \<Rightarrow> MemStorage \<Rightarrow> (principal \<Rightarrow> response \<times> MemStorage)
     \<Rightarrow> response \<times> MemStorage" where
  "isAuthenticated user s next =
     (case user of
        Some u \<Rightarrow> next u
      | None \<Rightarrow> (respond 401 (message ''Unauthorized''), s))"

definition isAdmin ::
  "principal option \<Rightarrow> MemStorage \<Rightarrow> (principal \<Rightarrow> response \<times> MemStorage)
     \<Rightarrow> response \<times> MemStorage" where
  "isAdmin user s next =
     (case user of
        Some u \<Rightarrow> if role u = ''admin'' then next u else (respond 403 (message ''Forbidden''), s)
      | None \<Rightarrow> (respond 403 (message ''Forbidden''), s))"

subsection \<open>Events\<close>

definition patchEventRoute ::
  "MemStorage \<Rightarrow> principal option \<Rightarrow> string \<Rightarrow> obj \<Rightarrow> response \<times> MemStorage" where
  "patchEventRoute s user idParam reqBody =
     isAuthenticated user s (\<lambda>u.
       let eventId = parseInt idParam in
       case getEvent s eventId of
         None \<Rightarrow> (respond 404 (message ''Event not found''), s)
       | Some existingEvent \<Rightarrow>
           if \<not> strictEq (getProp existingEvent ''createdBy'') (JNum (uid u)) \<and> role u \<noteq> ''admin''
           then (respond 403 (message ''Forbidden''), s)
           else (let (updatedEvent, s') = updateEvent s eventId reqBody
                 in (respond 200 (optJson updatedEvent), s')))"

definition deleteEventRoute ::
  "MemStorage \<Rightarrow> principal option \<Rightarrow> string \<Rightarrow> response \<times> MemStorage" where
  "deleteEventRoute s user idParam =
     isAuthenticated user s (\<lambda>u.
       let eventId = parseInt idParam in
       case getEvent s eventId of
         None \<Rightarrow> (respond 404 (message ''Event not found''), s)
       | Some existingEvent \<Rightarrow>
           if \<not> strictEq (getProp existingEvent ''createdBy'') (JNum (uid u)) \<and> role u \<noteq> ''admin''
           then (respond 403 (message ''Forbidden''), s)
           else (let (result, s') = deleteEvent s eventId
                 in if result then (respond 200 (message ''Event deleted''), s')
                    else (respond 404 (message ''Event not found''), s')))"

text \<open>
  \<^verbatim>\<open>GET /api/events/upcoming\<close>: the query parameter \<^verbatim>\<open>count\<close> is absent (\<open>None\<close>) or a
  string; an absent or empty one is falsy and leaves the count \<^verbatim>\<open>undefined\<close>.
\<close>

definition getUpcomingEventsRoute ::
  "(jsval \<Rightarrow> int option) \<Rightarrow> int \<Rightarrow> MemStorage \<Rightarrow> string option \<Rightarrow> response \<times> MemStorage" where
  "getUpcomingEventsRoute hostDate now s queryCount =
     (let cnt = (case queryCount of
                   None \<Rightarrow> None
                 | Some q \<Rightarrow> if truthy (JStr q) then Some (parseInt q) else None);
          events = getUpcomingEvents hostDate now s cnt
      in (respond 200 (JArr (map JObj events)), s))"

subsection \<open>Studies\<close>

definition patchStudyRoute ::
  "MemStorage \<Rightarrow> principal option \<Rightarrow> string \<Rightarrow> obj \<Rightarrow> response \<times> MemStorage" where
  "patchStudyRoute s user idParam reqBody =
     isAuthenticated user s (\<lambda>u.
       let studyId = parseInt idParam in
       case getStudy s studyId of
         None \<Rightarrow> (respond 404 (message ''Study not found''), s)
       | Some existingStudy \<Rightarrow>
           if \<not> strictEq (getProp existingStudy ''authorId'') (JNum (uid u)) \<and> role u \<noteq> ''admin''
           then (respond 403 (message ''Forbidden''), s)
           else (let (updatedStudy, s') = updateStudy s studyId reqBody
                 in (respond 200 (optJson updatedStudy), s')))"

definition deleteStudyRoute ::
  "MemStorage \<Rightarrow> principal option \<Rightarrow> string \<Rightarrow> response \<times> MemStorage" where
  "deleteStudyRoute s user idParam =
     isAuthenticated user s (\<lambda>u.
       let studyId = parseInt idParam in
       case getStudy s studyId of
         None \<Rightarrow> (respond 404 (message ''Study not found''), s)
       | Some existingStudy \<Rightarrow>
           if \<not> strictEq (getProp existingStudy ''authorId'') (JNum (uid u)) \<and> role u \<noteq> ''admin''
           then (respond 403 (message ''Forbidden''), s)
           else (let (result, s') = deleteStudy s studyId
                 in if result then (respond 200 (message ''Study deleted''), s')
                    else (respond 404 (message ''Study not found''), s')))"

subsection \<open>Posts\<close>

definition patchPostRoute ::
  "MemStorage \<Rightarrow> principal option \<Rightarrow> string \<Rightarrow> obj \<Rightarrow> response \<times> MemStorage" where
  "patchPostRoute s user idParam reqBody =
     isAuthenticated user s (\<lambda>u.
       let postId = parseInt idParam in
       case getPost s postId of
         None \<Rightarrow> (respond 404 (message ''Post not found''), s)
       | Some existingPost \<Rightarrow>
           if \<not> strictEq (getProp existingPost ''authorId'') (JNum (uid u)) \<and> role u \<noteq> ''admin''
           then (respond 403 (message ''Forbidden''), s)
           else (let (updatedPost, s') = updatePost s postId reqBody
                 in (respond 200 (optJson updatedPost), s')))"

definition deletePostRoute ::
  "MemStorage \<Rightarrow> principal option \<Rightarrow> string \<Rightarrow> response \<times> MemStorage" where
  "deletePostRoute s user idParam =
     isAuthenticated user s (\<lambda>u.
       let postId = parseInt idParam in
       case getPost s postId of
         None \<Rightarrow> (respond 404 (message ''Post not found''), s)
       | Some existingPost \<Rightarrow>
           if \<not> strictEq (getProp existingPost ''authorId'') (JNum (uid u)) \<and> role u \<noteq> ''admin''
           then (respond 403 (message ''Forbidden''), s)
           else (let (result, s') = deletePost s postId
                 in if result then (respond 200 (message ''Post deleted''), s')
                    else (respond 404 (message ''Post not found''), s')))"

subsection \<open>Forum topics\<close>

definition patchForumTopicRoute ::
  "MemStorage \<Rightarrow> principal option \<Rightarrow> string \<Rightarrow> obj \<Rightarrow> response \<times> MemStorage" where
  "patchForumTopicRoute s user idParam reqBody =
     isAuthenticated user s (\<lambda>u.
       let topicId = parseInt idParam in
       case getForumTopic s topicId of
         None \<Rightarrow> (respond 404 (message ''Forum topic not found''), s)
       | Some existingTopic \<Rightarrow>
           if \<not> strictEq (getProp existingTopic ''authorId'') (JNum (uid u)) \<and> role u \<noteq> ''admin''
           then (respond 403 (message ''Forbidden''), s)
           else (let (updatedTopic, s') = updateForumTopic s topicId reqBody
                 in (respond 200 (optJson updatedTopic), s')))"

definition deleteForumTopicRoute ::
  "MemStorage \<Rightarrow> principal option \<Rightarrow> string \<Rightarrow> response \<times> MemStorage" where
  "deleteForumTopicRoute s user idParam =
     isAuthenticated user s (\<lambda>u.
       let topicId = parseInt idParam in
       case getForumTopic s topicId of
         None \<Rightarrow> (respond 404 (message ''Forum topic not found''), s)
       | Some existingTopic \<Rightarrow>
           if \<not> strictEq (getProp existingTopic ''authorId'') (JNum (uid u)) \<and> role u \<noteq> ''admin''
           then (respond 403 (message ''Forbidden''), s)
           else (let (result, s') = deleteForumTopic s topicId
                 in if result then (respond 200 (message ''Forum topic deleted''), s')
                    else (respond 404 (message ''Forum topic not found''), s')))"

subsection \<open>Forum replies\<close>

definition patchForumReplyRoute ::
  "MemStorage \<Rightarrow> principal option \<Rightarrow> string \<Rightarrow> obj \<Rightarrow> response \<times> MemStorage" where
  "patchForumReplyRoute s user idParam reqBody =
     isAuthenticated user s (\<lambda>u.
       let replyId = parseInt idParam in
       case getForumReply s replyId of
         None \<Rightarrow> (respond 404 (message ''Forum reply not found''), s)
       | Some existingReply \<Rightarrow>
           if \<not> strictEq (getProp existingReply ''authorId'') (JNum (uid u)) \<and> role u \<noteq> ''admin''
           then (respond 403 (message ''Forbidden''), s)
           else (let (updatedReply, s') = updateForumReply s replyId reqBody
                 in (respond 200 (optJson updatedReply), s')))"

definition deleteForumReplyRoute ::
  "MemStorage \<Rightarrow> principal option \<Rightarrow> string \<Rightarrow> response \<times> MemStorage" where
  "deleteForumReplyRoute s user idParam =
     isAuthenticated user s (\<lambda>u.
       let replyId = parseInt idParam in
       case getForumReply s replyId of
         None \<Rightarrow> (respond 404 (message ''Forum reply not found''), s)
       | Some existingReply \<Rightarrow>
           if \<not> strictEq (getProp existingReply ''authorId'') (JNum (uid u)) \<and> role u \<noteq> ''admin''
           then (respond 403 (message ''Forbidden''), s)
           else (let (result, s') = deleteForumReply s replyId
                 in if result then (respond 200 (message ''Forum reply deleted''), s')
                    else (respond 404 (message ''Forum reply not found''), s')))"

subsection \<open>Users (admin only)\<close>

definition getUsersRoute :: "MemStorage \<Rightarrow> principal option \<Rightarrow> response \<times> MemStorage" where
  "getUsersRoute s user =
     isAdmin user s (\<lambda>u.
       let users = getAllUsers s;
           usersWithoutPasswords = map (\<lambda>user. omitProp ''password'' user) users
       in (respond 200 (JArr (map JObj usersWithoutPasswords)), s))"

definition patchUserRoute ::
  "MemStorage \<Rightarrow> principal option \<Rightarrow> string \<Rightarrow> obj \<Rightarrow> response \<times> MemStorage" where
  "patchUserRoute s user idParam reqBody =
     isAdmin user s (\<lambda>u.
       let userId = parseInt idParam;
           updateData = omitProp ''password'' reqBody;
           (updatedUser, s') = updateUser s userId updateData
       in case updatedUser of
            Some updated \<Rightarrow> (respond 200 (JObj (omitProp ''password'' updated)), s')
          | None \<Rightarrow> (respond 404 (message ''User not found''), s'))"

subsection \<open>Site settings\<close>

text \<open>
  Destructuring \<^verbatim>\<open>const { key, value } = v\<close> reads the two properties of \<open>v\<close>. On
  \<^verbatim>\<open>null\<close> and \<^verbatim>\<open>undefined\<close> it throws a \<^verbatim>\<open>TypeError\<close> (\<open>None\<close>); a number, a boolean,
  a string or an array has neither property.
\<close>

definition readProp :: "jsval \<Rightarrow> string \<Rightarrow> jsval option" where
  "readProp v k =
     (case v of
        JUndefined \<Rightarrow> None
      | JNull \<Rightarrow> None
      | JObj ob \<Rightarrow> Some (getProp ob k)
      | _ \<Rightarrow> Some JUndefined)"

text \<open>The object literal \<^verbatim>\<open>{ key, value, updatedBy: req.user!.id }\<close>.\<close>

definition settingData :: "jsval \<Rightarrow> jsval \<Rightarrow> principal \<Rightarrow> obj" where
  "settingData key val u = [(''key'', key), (''value'', val), (''updatedBy'', JNum (uid u))]"

definition postSiteSettingRoute ::
  "int \<Rightarrow> MemStorage \<Rightarrow> principal option \<Rightarrow> jsval \<Rightarrow> response \<times> MemStorage" where
  "postSiteSettingRoute now s user reqBody =
     isAdmin user s (\<lambda>u.
       case (readProp reqBody ''key'', readProp reqBody ''value'') of
         (Some key, Some val) \<Rightarrow>
           if \<not> truthy key then (respond 400 (message ''Key is required''), s)
           else (case getSiteSetting s key of
                   Some existingSetting \<Rightarrow>
                     (let (updated, s') =
                            updateSiteSetting now s (keyOf (getProp existingSetting ''id''))
                              (settingData key val u)
                      in (respond 200 (optJson updated), s'))
                 | None \<Rightarrow>
                     (let (newSetting, s') = createSiteSetting now s (settingData key val u)
                      in (respond 201 (JObj newSetting), s')))
       | _ \<Rightarrow> (respond 500 (message ''Error updating site setting''), s))"

text \<open>
  The loop of the batch handler over the items of the body. \<open>clock i\<close> is the clock
  reading while item \<open>i\<close> is handled. The result is \<open>None\<close> when destructuring an item
  throws; the store then keeps what the items before it wrote.
\<close>

fun batchLoop ::
  "(nat \<Rightarrow> int) \<Rightarrow> principal \<Rightarrow> nat \<Rightarrow> jsval list \<Rightarrow> MemStorage \<Rightarrow> jsval list
     \<Rightarrow> jsval list option \<times> MemStorage" where
  "batchLoop clock u i [] s results = (Some results, s)"
| "batchLoop clock u i (item # items) s results =
     (case (readProp item ''key'', readProp item ''value'') of
        (Some key, Some val) \<Rightarrow>
          if \<not> truthy key then batchLoop clock u (i + 1) items s results
          else (case getSiteSetting s key of
                  Some existingSetting \<Rightarrow>
                    (let (updated, s') =
                           updateSiteSetting (clock i) s (keyOf (getProp existingSetting ''id''))
                             (settingData key val u)
                     in batchLoop clock u (i + 1) items s' (results @ [optJson updated]))
                | None \<Rightarrow>
                    (let (newSetting, s') = createSiteSetting (clock i) s (settingData key val u)
                     in batchLoop clock u (i + 1) items s' (results @ [JObj newSetting])))
      | _ \<Rightarrow> (None, s))"

definition postSiteSettingsBatchRoute ::
  "(nat \<Rightarrow> int) \<Rightarrow> MemStorage \<Rightarrow> principal option \<Rightarrow> jsval \<Rightarrow> response \<times> MemStorage" where
  "postSiteSettingsBatchRoute clock s user reqBody =
     isAdmin user s (\<lambda>u.
       case reqBody of
         JArr items \<Rightarrow>
           (case batchLoop clock u 0 items s [] of
              (Some results, s') \<Rightarrow>
                (respond 200
                   (JObj [(''message'', JStr ''Settings updated''),
                          (''count'', JNum (int (length results)))]), s')
            | (None, s') \<Rightarrow> (respond 500 (message ''Error updating site settings''), s'))
       | _ \<Rightarrow> (respond 400 (message ''Request body must be an array''), s))"

section \<open>Specification vocabulary\<close>

subsection \<open>Insert shapes\<close>








subsection \<open>Contracts of the repository and of the gates\<close>

text \<open>
  What \<^verbatim>\<open>delete(id)\<close> promises, for a lookup \<open>get\<close> and a delete \<open>del\<close> of one
  collection: the answer says whether the record was there, the record is gone afterwards,
  the other records stay, deleting an absent id changes nothing, and a second delete
  answers false and changes nothing.
\<close>

definition deleteContract ::
  "(MemStorage \<Rightarrow> jsnum \<Rightarrow> obj option) \<Rightarrow> (MemStorage \<Rightarrow> jsnum \<Rightarrow> bool \<times> MemStorage)
     \<Rightarrow> bool" where
  "deleteContract get del =
     (\<forall>s i. fst (del s i) = (get s i \<noteq> None)
          \<and> get (snd (del s i)) i = None
          \<and> (\<forall>j. j \<noteq> i \<longrightarrow> get (snd (del s i)) j = get s j)
          \<and> (get s i = None \<longrightarrow> snd (del s i) = s)
          \<and> fst (del (snd (del s i)) i) = False
          \<and> snd (del (snd (del s i)) i) = snd (del s i))"

text \<open>
  The ownership gate of a \<^verbatim>\<open>PATCH\<close> or \<^verbatim>\<open>DELETE\<close> route, seen by an authenticated
  principal who is not an admin: 404 and an untouched store when the id names no record;
  403 and an untouched store when it names a record the principal does not own.
\<close>

definition ownershipGate ::
  "string \<Rightarrow> (MemStorage \<Rightarrow> jsnum \<Rightarrow> obj option)
     \<Rightarrow> (MemStorage \<Rightarrow> principal option \<Rightarrow> string \<Rightarrow> response \<times> MemStorage) \<Rightarrow> bool" where
  "ownershipGate ownerField get route =
     (\<forall>s u idParam. role u \<noteq> ''admin'' \<longrightarrow>
        (case get s (parseInt idParam) of
           None \<Rightarrow>
             status (fst (route s (Some u) idParam)) = 404
             \<and> snd (route s (Some u) idParam) = s
         | Some e \<Rightarrow>
             getProp e ownerField \<noteq> JNum (uid u) \<longrightarrow>
               status (fst (route s (Some u) idParam)) = 403
               \<and> snd (route s (Some u) idParam) = s))"

text \<open>
  What a \<^verbatim>\<open>PATCH\<close> does for a principal who passes the gate, whatever the body holds:
  200 with the merged record, which is stored under the same map key; every key of the
  body has the body's value in it, every other key the old value.
\<close>

definition patchOverwrites ::
  "string \<Rightarrow> (MemStorage \<Rightarrow> jsnum \<Rightarrow> obj option)
     \<Rightarrow> (MemStorage \<Rightarrow> principal option \<Rightarrow> string \<Rightarrow> obj \<Rightarrow> response \<times> MemStorage)
     \<Rightarrow> bool" where
  "patchOverwrites ownerField get route =
     (\<forall>s u idParam reqBody e.
        get s (parseInt idParam) = Some e
        \<and> (getProp e ownerField = JNum (uid u) \<or> role u = ''admin'') \<longrightarrow>
        (\<exists>e'. fst (route s (Some u) idParam reqBody) = respond 200 (JObj e')
            \<and> get (snd (route s (Some u) idParam reqBody)) (parseInt idParam) = Some e'
            \<and> (\<forall>k v. map_of reqBody k = Some v \<longrightarrow> getProp e' k = v)
            \<and> (\<forall>k. map_of reqBody k = None \<longrightarrow> getProp e' k = getProp e k)))"



subsection \<open>Sample data\<close>

definition adminUser :: principal where
  "adminUser = \<lparr> uid = 1, role = ''admin'' \<rparr>"

definition memberUser :: principal where
  "memberUser = \<lparr> uid = 2, role = ''member'' \<rparr>"

definition serviceEvent :: obj where
  "serviceEvent =
     [(''title'', JStr ''Service''), (''eventType'', JStr ''service''),
      (''startTime'', JDate 86400000), (''endTime'', JDate 90000000),
      (''location'', JStr ''Hall''), (''createdBy'', JNum 1)]"

text \<open>The store after the admin has created the event at time 0: it has id 1.\<close>

definition storeWithEvent :: MemStorage where
  "storeWithEvent = snd (createEvent 0 newMemStorage serviceEvent)"

subsection \<open>Passwords in responses\<close>

text \<open>
  A response body carries no \<^verbatim>\<open>password\<close> field: the body, when it is an object, has no
  such key, and when it is an array, none of its objects has.
\<close>

definition withoutPasswordKey :: "jsval \<Rightarrow> bool" where
  "withoutPasswordKey v = (case v of JObj ob \<Rightarrow> ''password'' \<notin> set (map fst ob) | _ \<Rightarrow> True)"

definition noPasswordField :: "jsval \<Rightarrow> bool" where
  "noPasswordField v = (case v of JArr xs \<Rightarrow> list_all withoutPasswordKey xs | _ \<Rightarrow> withoutPasswordKey v)"

text \<open>
  Two stores hold the same users up to passwords: the same ids in the same order, and
  under each id records that agree once the \<^verbatim>\<open>password\<close> property is left out.
\<close>

definition publicUsers :: "MemStorage \<Rightarrow> obj jsmap" where
  "publicUsers s = map (\<lambda>(i, user). (i, omitProp ''password'' user)) (usersData s)"

definition samePublicUsers :: "MemStorage \<Rightarrow> MemStorage \<Rightarrow> bool" where
  "samePublicUsers s s' = (publicUsers s = publicUsers s')"

definition anaUser :: obj where
  "anaUser =
     [(''username'', JStr ''ana''), (''password'', JStr ''hash-1''), (''name'', JStr ''Ana''),
      (''email'', JStr ''ana@example.org''), (''role'', JStr ''admin'')]"

definition storeWithUser :: MemStorage where
  "storeWithUser = snd (createUser 0 newMemStorage anaUser)"

text \<open>The same store after the stored password has been replaced.\<close>

definition storeWithOtherPassword :: MemStorage where
  "storeWithOtherPassword =
     storeWithUser\<lparr>usersData :=
       map (\<lambda>(i, user). (i, setProp ''password'' (JStr ''hash-2'') user)) (usersData storeWithUser)\<rparr>"

subsection \<open>Upcoming events\<close>


text \<open>
  Four events starting one hour after, three hours after, one hour before and two hours
  after the time \<open>T = 100000000\<close>, created in this order.
\<close>

definition eventAt :: "string \<Rightarrow> int \<Rightarrow> obj" where
  "eventAt title t = [(''title'', JStr title), (''startTime'', JDate t)]"

definition storeWithFourEvents :: MemStorage where
  "storeWithFourEvents =
     (let s1 = snd (createEvent 0 newMemStorage (eventAt ''plus1'' 103600000));
          s2 = snd (createEvent 0 s1 (eventAt ''plus3'' 110800000));
          s3 = snd (createEvent 0 s2 (eventAt ''minus1'' 96400000));
          s4 = snd (createEvent 0 s3 (eventAt ''plus2'' 107200000))
      in s4)"

definition noHostDate :: "jsval \<Rightarrow> int option" where
  "noHostDate v = None"

subsection \<open>Sequences of repository calls\<close>

text \<open>
  The calls of the repository interface that write, by entity kind, and what each
  returns. The interface has no delete for users and site settings.
\<close>

datatype kind = User | Event | Study | Post | ForumTopic | ForumReply | SiteSetting

datatype call = Create kind obj | Update kind jsnum obj | Delete kind jsnum

datatype outcome = Created obj | Updated "obj option" | Deleted bool | NoSuchMethod

fun exec :: "int \<Rightarrow> MemStorage \<Rightarrow> call \<Rightarrow> outcome \<times> MemStorage" where
  "exec now s (Create User d) = (let (e, s') = createUser now s d in (Created e, s'))"
| "exec now s (Create Event d) = (let (e, s') = createEvent now s d in (Created e, s'))"
| "exec now s (Create Study d) = (let (e, s') = createStudy now s d in (Created e, s'))"
| "exec now s (Create Post d) = (let (e, s') = createPost now s d in (Created e, s'))"
| "exec now s (Create ForumTopic d) =
     (let (e, s') = createForumTopic now s d in (Created e, s'))"
| "exec now s (Create ForumReply d) =
     (let (e, s') = createForumReply now s d in (Created e, s'))"
| "exec now s (Create SiteSetting d) =
     (let (e, s') = createSiteSetting now s d in (Created e, s'))"
| "exec now s (Update User i d) = (let (r, s') = updateUser s i d in (Updated r, s'))"
| "exec now s (Update Event i d) = (let (r, s') = updateEvent s i d in (Updated r, s'))"
| "exec now s (Update Study i d) = (let (r, s') = updateStudy s i d in (Updated r, s'))"
| "exec now s (Update Post i d) = (let (r, s') = updatePost s i d in (Updated r, s'))"
| "exec now s (Update ForumTopic i d) =
     (let (r, s') = updateForumTopic s i d in (Updated r, s'))"
| "exec now s (Update ForumReply i d) =
     (let (r, s') = updateForumReply s i d in (Updated r, s'))"
| "exec now s (Update SiteSetting i d) =
     (let (r, s') = updateSiteSetting now s i d in (Updated r, s'))"
| "exec now s (Delete Event i) = (let (r, s') = deleteEvent s i in (Deleted r, s'))"
| "exec now s (Delete Study i) = (let (r, s') = deleteStudy s i in (Deleted r, s'))"
| "exec now s (Delete Post i) = (let (r, s') = deletePost s i in (Deleted r, s'))"
| "exec now s (Delete ForumTopic i) =
     (let (r, s') = deleteForumTopic s i in (Deleted r, s'))"
| "exec now s (Delete ForumReply i) =
     (let (r, s') = deleteForumReply s i in (Deleted r, s'))"
| "exec now s (Delete User i) = (NoSuchMethod, s)"
| "exec now s (Delete SiteSetting i) = (NoSuchMethod, s)"

text \<open>
  A sequence of calls, each made at its own clock reading, run from a store; the result
  is the list of the calls with what they returned.
\<close>

fun run :: "MemStorage \<Rightarrow> (int \<times> call) list \<Rightarrow> (call \<times> outcome) list" where
  "run s [] = []"
| "run s ((now, c) # cs) = (let (r, s') = exec now s c in (c, r) # run s' cs)"

text \<open>The \<^verbatim>\<open>id\<close> of the record that a create of kind \<open>k\<close> returned.\<close>

fun createdId :: "kind \<Rightarrow> call \<times> outcome \<Rightarrow> jsval option" where
  "createdId k (Create k' d, Created e) = (if k' = k then Some (getProp e ''id'') else None)"
| "createdId k _ = None"

definition createdIds :: "kind \<Rightarrow> (call \<times> outcome) list \<Rightarrow> jsval list" where
  "createdIds k tr = List.map_filter (createdId k) tr"

fun counterOf :: "kind \<Rightarrow> MemStorage \<Rightarrow> int" where
  "counterOf User s = userIdCounter s"
| "counterOf Event s = eventIdCounter s"
| "counterOf Study s = studyIdCounter s"
| "counterOf Post s = postIdCounter s"
| "counterOf ForumTopic s = forumTopicIdCounter s"
| "counterOf ForumReply s = forumReplyIdCounter s"
| "counterOf SiteSetting s = siteSettingIdCounter s"

fun isCreate :: "kind \<Rightarrow> call \<Rightarrow> bool" where
  "isCreate k (Create k' d) = (k' = k)"
| "isCreate k _ = False"

text \<open>Creates of events and posts interleaved with an update and a delete.\<close>

definition sampleCalls :: "(int \<times> call) list" where
  "sampleCalls =
     [(10, Create Event (eventAt ''a'' 100)),
      (20, Create Event (eventAt ''b'' 200)),
      (30, Create Post [(''title'', JStr ''p'')]),
      (40, Update Event (Num 1) [(''id'', JNum 7)]),
      (50, Delete Event (Num 2)),
      (60, Create Event (eventAt ''c'' 300))]"

subsection \<open>Site settings by key\<close>

text \<open>The live records that \<^verbatim>\<open>getSiteSetting(key)\<close> could match.\<close>

definition keyMatches :: "MemStorage \<Rightarrow> jsval \<Rightarrow> obj list" where
  "keyMatches s key =
     filter (\<lambda>setting. strictEq (getProp setting ''key'') key) (getAllSiteSettings s)"

text \<open>
  The invariant of the site-settings collection: the entries of the map have distinct
  keys; each entry is stored under the number that is its \<^verbatim>\<open>id\<close>, a number below the
  counter; and no two entries have strictly equal \<^verbatim>\<open>key\<close> properties.
\<close>

definition settingsOk :: "MemStorage \<Rightarrow> bool" where
  "settingsOk s =
     (distinct (map fst (siteSettingsData s))
      \<and> (\<forall>(i, r) \<in> set (siteSettingsData s).
            \<exists>n. i = Num n \<and> n < siteSettingIdCounter s \<and> getProp r ''id'' = JNum n)
      \<and> (\<forall>(i, r) \<in> set (siteSettingsData s). \<forall>(j, r') \<in> set (siteSettingsData s).
            strictEq (getProp r ''key'') (getProp r' ''key'') \<longrightarrow> i = j))"

text \<open>
  The upsert that both settings handlers perform for a key, a value and a principal:
  update the record found under the key, or create one.
\<close>

definition upsertSetting :: "int \<Rightarrow> principal \<Rightarrow> jsval \<Rightarrow> jsval \<Rightarrow> MemStorage \<Rightarrow> MemStorage" where
  "upsertSetting now u key val s =
     (case getSiteSetting s key of
        Some existingSetting \<Rightarrow>
          snd (updateSiteSetting now s (keyOf (getProp existingSetting ''id''))
                 (settingData key val u))
      | None \<Rightarrow> snd (createSiteSetting now s (settingData key val u)))"

text \<open>A sequence of \<^verbatim>\<open>POST /api/site-settings\<close> requests, each with its clock reading.\<close>

fun postAll :: "MemStorage \<Rightarrow> (int \<times> principal option \<times> jsval) list \<Rightarrow> MemStorage" where
  "postAll s [] = s"
| "postAll s ((now, user, reqBody) # reqs) =
     postAll (snd (postSiteSettingRoute now s user reqBody)) reqs"

definition siteNameBody :: "string \<Rightarrow> jsval" where
  "siteNameBody v = JObj [(''key'', JStr ''siteName''), (''value'', JStr v)]"

text \<open>The record that the update of \<open>e\<close> writes, and the record that a create writes.\<close>

definition updatedSetting :: "int \<Rightarrow> obj \<Rightarrow> jsval \<Rightarrow> jsval \<Rightarrow> principal \<Rightarrow> obj" where
  "updatedSetting now e key val u =
     setProp ''updatedAt'' (JDate now) (spread e (settingData key val u))"

definition createdSetting :: "int \<Rightarrow> int \<Rightarrow> jsval \<Rightarrow> jsval \<Rightarrow> principal \<Rightarrow> obj" where
  "createdSetting now n key val u =
     setProp ''updatedAt'' (JDate now) (setProp ''id'' (JNum n) (settingData key val u))"

text \<open>The record that the upsert of a key writes in a store.\<close>

definition upsertedSetting :: "int \<Rightarrow> principal \<Rightarrow> jsval \<Rightarrow> jsval \<Rightarrow> MemStorage \<Rightarrow> obj" where
  "upsertedSetting now u key val s =
     (case getSiteSetting s key of
        Some e \<Rightarrow> updatedSetting now e key val u
      | None \<Rightarrow> createdSetting now (siteSettingIdCounter s) key val u)"

text \<open>Posting \<^verbatim>\<open>{key: "siteName", value: "A"}\<close> at time 1, then the same key with \<^verbatim>\<open>"B"\<close> at time 2.\<close>

definition siteNameRequests :: "(int \<times> principal option \<times> jsval) list" where
  "siteNameRequests =
     [(1, Some adminUser, siteNameBody ''A''), (2, Some adminUser, siteNameBody ''B'')]"

definition siteNameRecord :: "string \<Rightarrow> int \<Rightarrow> obj" where
  "siteNameRecord v t =
     [(''key'', JStr ''siteName''), (''value'', JStr v), (''updatedBy'', JNum 1),
      (''id'', JNum 1), (''updatedAt'', JDate t)]"

definition storeAfterA :: MemStorage where
  "storeAfterA = snd (postSiteSettingRoute 1 newMemStorage (Some adminUser) (siteNameBody ''A''))"

subsection \<open>The batch of site settings\<close>

text \<open>
  What the loop reads of an item: a property of an item that can be destructured, and
  whether the item has a key, which is the loop's test \<^verbatim>\<open>!key\<close> negated.
\<close>

definition itemProp :: "jsval \<Rightarrow> string \<Rightarrow> jsval" where
  "itemProp item k = (case readProp item k of None \<Rightarrow> JUndefined | Some v \<Rightarrow> v)"

definition hasKey :: "jsval \<Rightarrow> bool" where
  "hasKey item = truthy (itemProp item ''key'')"

text \<open>
  The upserts of the items that have a key, in order, item \<open>i\<close> at the clock reading
  \<open>clock i\<close>; the items without a key are passed over.
\<close>

fun upsertItems :: "(nat \<Rightarrow> int) \<Rightarrow> principal \<Rightarrow> nat \<Rightarrow> jsval list \<Rightarrow> MemStorage \<Rightarrow> MemStorage" where
  "upsertItems clock u i [] s = s"
| "upsertItems clock u i (item # items) s =
     upsertItems clock u (i + 1) items
       (if hasKey item
        then upsertSetting (clock i) u (itemProp item ''key'') (itemProp item ''value'') s
        else s)"

text \<open>The body \<^verbatim>\<open>[{key:"a",value:"1"},{key:"b",value:"2"},{foo:"bad"}]\<close>.\<close>

definition sampleBatch :: "jsval list" where
  "sampleBatch =
     [JObj [(''key'', JStr ''a''), (''value'', JStr ''1'')],
      JObj [(''key'', JStr ''b''), (''value'', JStr ''2'')],
      JObj [(''foo'', JStr ''bad'')]]"

definition noClock :: "nat \<Rightarrow> int" where
  "noClock i = 0"

section \<open>Verification\<close>

subsection \<open>Objects and maps\<close>

lemma strictEq_JNum [simp]: "strictEq v (JNum n) = (v = JNum n)"
  by (cases v) auto


lemma getProp_spread:
  "getProp (spread a b) k = (case map_of b k of None \<Rightarrow> getProp a k | Some v \<Rightarrow> v)"
  by (simp add: getProp_def spread_def AList.merge_conv' map_add_def split: option.split)



lemma spread_takes: "map_of P k = Some v \<Longrightarrow> getProp (spread E P) k = v"
  by (simp add: getProp_spread)

lemma getProp_setProp: "getProp (setProp k v ob) j = (if j = k then v else getProp ob j)"
  by (simp add: getProp_def setProp_def AList.update_conv')

lemma mapGet_mapSet: "mapGet (mapSet m k v) j = (if j = k then Some v else mapGet m j)"
  by (simp add: mapGet_def mapSet_def AList.update_conv')

lemma map_of_delete_same: "map_of (AList.delete k m) k = None"
  by (simp add: AList.delete_conv')

lemma delete_absent: "map_of m k = None \<Longrightarrow> AList.delete k m = m"
  by (rule AList.delete_id) (simp add: map_of_eq_None_iff)

lemma sample_store:
  "storeWithEvent =
     newMemStorage\<lparr>eventsData :=
        [(Num 1, serviceEvent @ [(''id'', JNum 1), (''createdAt'', JDate 0)])],
        eventIdCounter := 2\<rparr>"
  by (simp add: storeWithEvent_def createEvent_def newMemStorage_def mapSet_def setProp_def
      serviceEvent_def Let_def)

lemma sample_lookup:
  "getEvent storeWithEvent (parseInt ''1'')
     = Some (serviceEvent @ [(''id'', JNum 1), (''createdAt'', JDate 0)])"
  "getEvent storeWithEvent (parseInt ''7'') = None"
  by (simp_all add: sample_store getEvent_def mapGet_def parseInt_def parseUnsigned_def
      parseDigits_def isDigit_def digitVal_def digitsVal_def isSpace_def Let_def)

subsection \<open>Delete\<close>

lemma deleteContractI:
  assumes "\<And>s i. del s i = (mapGet (dat s) i \<noteq> None, upd (AList.delete i (dat s)) s)"
    and "\<And>s m. dat (upd m s) = m"
    and "\<And>s. upd (dat s) s = s"
    and "\<And>s m n. upd m (upd n s) = upd m s"
    and "\<And>s i. get s i = mapGet (dat s) i"
  shows "deleteContract get del"
  unfolding deleteContract_def
  by (simp add: assms mapGet_def map_of_delete_same delete_absent AList.delete_idem)

lemma deleteEvent_contract: "deleteContract getEvent deleteEvent"
  by (rule deleteContractI [where dat = eventsData and upd = "\<lambda>m s. s\<lparr>eventsData := m\<rparr>"])
     (simp_all add: deleteEvent_def getEvent_def mapDelete_def mapGet_def)

lemma deleteStudy_contract: "deleteContract getStudy deleteStudy"
  by (rule deleteContractI [where dat = studiesData and upd = "\<lambda>m s. s\<lparr>studiesData := m\<rparr>"])
     (simp_all add: deleteStudy_def getStudy_def mapDelete_def mapGet_def)

lemma deletePost_contract: "deleteContract getPost deletePost"
  by (rule deleteContractI [where dat = postsData and upd = "\<lambda>m s. s\<lparr>postsData := m\<rparr>"])
     (simp_all add: deletePost_def getPost_def mapDelete_def mapGet_def)

lemma deleteForumTopic_contract: "deleteContract getForumTopic deleteForumTopic"
  by (rule deleteContractI [where dat = forumTopicsData and upd = "\<lambda>m s. s\<lparr>forumTopicsData := m\<rparr>"])
     (simp_all add: deleteForumTopic_def getForumTopic_def mapDelete_def mapGet_def)

lemma deleteForumReply_contract: "deleteContract getForumReply deleteForumReply"
  by (rule deleteContractI [where dat = forumRepliesData and upd = "\<lambda>m s. s\<lparr>forumRepliesData := m\<rparr>"])
     (simp_all add: deleteForumReply_def getForumReply_def mapDelete_def mapGet_def)

text \<open>
  C8. For every id, \<^verbatim>\<open>delete(id)\<close> returns true exactly when a record with that id
  existed, and removes it; it returns false when the id is absent and then leaves the store
  as it was. Deleting the same id a second time returns false and leaves the store
  unchanged. This holds for the five collections that have a delete.
\<close>

theorem delete_reports_existence_and_is_idempotent:
  "deleteContract getEvent deleteEvent
   \<and> deleteContract getStudy deleteStudy
   \<and> deleteContract getPost deletePost
   \<and> deleteContract getForumTopic deleteForumTopic
   \<and> deleteContract getForumReply deleteForumReply"
  by (simp add: deleteEvent_contract deleteStudy_contract deletePost_contract
      deleteForumTopic_contract deleteForumReply_contract)

theorem delete_reports_existence_and_is_idempotent_witness:
  "getEvent storeWithEvent (Num 1) \<noteq> None
   \<and> fst (deleteEvent storeWithEvent (Num 1))
   \<and> getEvent (snd (deleteEvent storeWithEvent (Num 1))) (Num 1) = None
   \<and> \<not> fst (deleteEvent (snd (deleteEvent storeWithEvent (Num 1))) (Num 1))
   \<and> snd (deleteEvent (snd (deleteEvent storeWithEvent (Num 1))) (Num 1))
       = snd (deleteEvent storeWithEvent (Num 1))
   \<and> Num 7 \<noteq> Num 1
   \<and> getEvent (snd (deleteEvent storeWithEvent (Num 7))) (Num 1) = getEvent storeWithEvent (Num 1)
   \<and> getEvent storeWithEvent (Num 7) = None
   \<and> \<not> fst (deleteEvent storeWithEvent (Num 7))
   \<and> snd (deleteEvent storeWithEvent (Num 7)) = storeWithEvent"
proof -
  have c: "deleteContract getEvent deleteEvent"
    using delete_reports_existence_and_is_idempotent by simp
  have present: "getEvent storeWithEvent (Num 1) \<noteq> None"
    by (simp add: sample_store getEvent_def mapGet_def)
  have absent: "getEvent storeWithEvent (Num 7) = None"
    by (simp add: sample_store getEvent_def mapGet_def)
  have other: "Num 7 \<noteq> Num 1" by simp
  from c present absent other show ?thesis
    unfolding deleteContract_def by metis
qed

subsection \<open>The ownership gate\<close>

lemma gate_patchEvent: "ownershipGate ''createdBy'' getEvent (\<lambda>s u p. patchEventRoute s u p reqBody)"
  by (simp add: ownershipGate_def patchEventRoute_def isAuthenticated_def respond_def
      split: option.split)

lemma gate_deleteEvent: "ownershipGate ''createdBy'' getEvent deleteEventRoute"
  by (simp add: ownershipGate_def deleteEventRoute_def isAuthenticated_def respond_def
      split: option.split)

lemma gate_patchStudy: "ownershipGate ''authorId'' getStudy (\<lambda>s u p. patchStudyRoute s u p reqBody)"
  by (simp add: ownershipGate_def patchStudyRoute_def isAuthenticated_def respond_def
      split: option.split)

lemma gate_deleteStudy: "ownershipGate ''authorId'' getStudy deleteStudyRoute"
  by (simp add: ownershipGate_def deleteStudyRoute_def isAuthenticated_def respond_def
      split: option.split)

lemma gate_patchPost: "ownershipGate ''authorId'' getPost (\<lambda>s u p. patchPostRoute s u p reqBody)"
  by (simp add: ownershipGate_def patchPostRoute_def isAuthenticated_def respond_def
      split: option.split)

lemma gate_deletePost: "ownershipGate ''authorId'' getPost deletePostRoute"
  by (simp add: ownershipGate_def deletePostRoute_def isAuthenticated_def respond_def
      split: option.split)

lemma gate_patchForumTopic: "ownershipGate ''authorId'' getForumTopic (\<lambda>s u p. patchForumTopicRoute s u p reqBody)"
  by (simp add: ownershipGate_def patchForumTopicRoute_def isAuthenticated_def respond_def
      split: option.split)

lemma gate_deleteForumTopic: "ownershipGate ''authorId'' getForumTopic deleteForumTopicRoute"
  by (simp add: ownershipGate_def deleteForumTopicRoute_def isAuthenticated_def respond_def
      split: option.split)

lemma gate_patchForumReply: "ownershipGate ''authorId'' getForumReply (\<lambda>s u p. patchForumReplyRoute s u p reqBody)"
  by (simp add: ownershipGate_def patchForumReplyRoute_def isAuthenticated_def respond_def
      split: option.split)

lemma gate_deleteForumReply: "ownershipGate ''authorId'' getForumReply deleteForumReplyRoute"
  by (simp add: ownershipGate_def deleteForumReplyRoute_def isAuthenticated_def respond_def
      split: option.split)

text \<open>
  C1. For every authenticated principal that is neither the owner of the resource nor an
  admin, \<^verbatim>\<open>PATCH\<close> and \<^verbatim>\<open>DELETE\<close> on an event, study, post, forum topic or forum reply
  answer 404 when no record has that id and 403 when one has, never 200; in both cases the
  handler returns before the repository is asked to change anything, so the store is the
  one it was given.
\<close>

theorem non_owner_gets_404_or_403:
  "ownershipGate ''createdBy'' getEvent (\<lambda>s u p. patchEventRoute s u p reqBody)
   \<and> ownershipGate ''createdBy'' getEvent deleteEventRoute
   \<and> ownershipGate ''authorId'' getStudy (\<lambda>s u p. patchStudyRoute s u p reqBody)
   \<and> ownershipGate ''authorId'' getStudy deleteStudyRoute
   \<and> ownershipGate ''authorId'' getPost (\<lambda>s u p. patchPostRoute s u p reqBody)
   \<and> ownershipGate ''authorId'' getPost deletePostRoute
   \<and> ownershipGate ''authorId'' getForumTopic (\<lambda>s u p. patchForumTopicRoute s u p reqBody)
   \<and> ownershipGate ''authorId'' getForumTopic deleteForumTopicRoute
   \<and> ownershipGate ''authorId'' getForumReply (\<lambda>s u p. patchForumReplyRoute s u p reqBody)
   \<and> ownershipGate ''authorId'' getForumReply deleteForumReplyRoute"
  by (simp add: gate_patchEvent gate_deleteEvent gate_patchStudy gate_deleteStudy
      gate_patchPost gate_deletePost gate_patchForumTopic gate_deleteForumTopic
      gate_patchForumReply gate_deleteForumReply)

theorem non_owner_gets_404_or_403_witness:
  "role memberUser \<noteq> ''admin''
   \<and> getEvent storeWithEvent (parseInt ''1'')
       = Some (serviceEvent @ [(''id'', JNum 1), (''createdAt'', JDate 0)])
   \<and> getProp (serviceEvent @ [(''id'', JNum 1), (''createdAt'', JDate 0)]) ''createdBy''
       \<noteq> JNum (uid memberUser)
   \<and> status (fst (patchEventRoute storeWithEvent (Some memberUser) ''1''
                      [(''title'', JStr ''Mine'')])) = 403
   \<and> snd (patchEventRoute storeWithEvent (Some memberUser) ''1'' [(''title'', JStr ''Mine'')])
       = storeWithEvent
   \<and> status (fst (deleteEventRoute storeWithEvent (Some memberUser) ''1'')) = 403
   \<and> snd (deleteEventRoute storeWithEvent (Some memberUser) ''1'') = storeWithEvent
   \<and> getEvent storeWithEvent (parseInt ''7'') = None
   \<and> status (fst (patchEventRoute storeWithEvent (Some memberUser) ''7''
                      [(''title'', JStr ''Mine'')])) = 404
   \<and> snd (patchEventRoute storeWithEvent (Some memberUser) ''7'' [(''title'', JStr ''Mine'')])
       = storeWithEvent
   \<and> status (fst (deleteEventRoute storeWithEvent (Some memberUser) ''7'')) = 404
   \<and> snd (deleteEventRoute storeWithEvent (Some memberUser) ''7'') = storeWithEvent"
proof -
  have member: "role memberUser \<noteq> ''admin''"
    by (simp add: memberUser_def)
  have other: "getProp (serviceEvent @ [(''id'', JNum 1), (''createdAt'', JDate 0)]) ''createdBy''
       \<noteq> JNum (uid memberUser)"
    by (simp add: getProp_def serviceEvent_def memberUser_def)
  have p: "ownershipGate ''createdBy'' getEvent
             (\<lambda>s u p. patchEventRoute s u p [(''title'', JStr ''Mine'')])"
    and d: "ownershipGate ''createdBy'' getEvent deleteEventRoute"
    using non_owner_gets_404_or_403 [of "[(''title'', JStr ''Mine'')]"] by simp_all
  note pi = p [unfolded ownershipGate_def, rule_format, OF member, of storeWithEvent]
  note di = d [unfolded ownershipGate_def, rule_format, OF member, of storeWithEvent]
  show ?thesis
    using member other pi [of "''1''"] pi [of "''7''"] di [of "''1''"] di [of "''7''"]
    by (simp add: sample_lookup)
qed

subsection \<open>Partial update\<close>













subsection \<open>Unvalidated bodies of PATCH\<close>

lemma getProp_spread_None: "map_of b k = None \<Longrightarrow> getProp (spread a b) k = getProp a k"
  by (simp add: getProp_spread)

lemma overwrites_patchEvent: "patchOverwrites ''createdBy'' getEvent patchEventRoute"
  unfolding patchOverwrites_def
  by (auto simp: patchEventRoute_def isAuthenticated_def updateEvent_def getEvent_def
      optJson_def mapGet_mapSet spread_takes getProp_spread_None Let_def)

lemma overwrites_patchStudy: "patchOverwrites ''authorId'' getStudy patchStudyRoute"
  unfolding patchOverwrites_def
  by (auto simp: patchStudyRoute_def isAuthenticated_def updateStudy_def getStudy_def
      optJson_def mapGet_mapSet spread_takes getProp_spread_None Let_def)

lemma overwrites_patchPost: "patchOverwrites ''authorId'' getPost patchPostRoute"
  unfolding patchOverwrites_def
  by (auto simp: patchPostRoute_def isAuthenticated_def updatePost_def getPost_def
      optJson_def mapGet_mapSet spread_takes getProp_spread_None Let_def)

lemma overwrites_patchForumTopic: "patchOverwrites ''authorId'' getForumTopic patchForumTopicRoute"
  unfolding patchOverwrites_def
  by (auto simp: patchForumTopicRoute_def isAuthenticated_def updateForumTopic_def getForumTopic_def
      optJson_def mapGet_mapSet spread_takes getProp_spread_None Let_def)

lemma overwrites_patchForumReply: "patchOverwrites ''authorId'' getForumReply patchForumReplyRoute"
  unfolding patchOverwrites_def
  by (auto simp: patchForumReplyRoute_def isAuthenticated_def updateForumReply_def getForumReply_def
      optJson_def mapGet_mapSet spread_takes getProp_spread_None Let_def)

text \<open>
  C9. The \<^verbatim>\<open>PATCH\<close> handlers of the owned entities hand the request body to the
  repository update as it came, and the merge replaces every top-level key the body has.
  So, for every existing record and every principal who passes the ownership gate, the
  stored record takes the body's value for each key of the body, the owner field, \<^verbatim>\<open>id\<close>
  and \<^verbatim>\<open>createdAt\<close> included: ownership can be handed over, and the \<^verbatim>\<open>id\<close> of the stored
  record can differ from the key it is stored under.
\<close>

theorem patch_body_overwrites_any_field:
  "patchOverwrites ''createdBy'' getEvent patchEventRoute
   \<and> patchOverwrites ''authorId'' getStudy patchStudyRoute
   \<and> patchOverwrites ''authorId'' getPost patchPostRoute
   \<and> patchOverwrites ''authorId'' getForumTopic patchForumTopicRoute
   \<and> patchOverwrites ''authorId'' getForumReply patchForumReplyRoute"
  by (simp add: overwrites_patchEvent overwrites_patchStudy overwrites_patchPost
      overwrites_patchForumTopic overwrites_patchForumReply)

theorem patch_body_overwrites_any_field_witness:
  "getEvent storeWithEvent (parseInt ''1'')
     = Some (serviceEvent @ [(''id'', JNum 1), (''createdAt'', JDate 0)])
   \<and> getProp (serviceEvent @ [(''id'', JNum 1), (''createdAt'', JDate 0)]) ''createdBy''
       = JNum (uid \<lparr>uid = 1, role = ''member''\<rparr>)
   \<and> (\<exists>e'. fst (patchEventRoute storeWithEvent (Some \<lparr>uid = 1, role = ''member''\<rparr>) ''1''
                   [(''createdBy'', JNum 2), (''id'', JNum 99), (''createdAt'', JStr ''never'')])
               = respond 200 (JObj e')
           \<and> getEvent (snd (patchEventRoute storeWithEvent
                   (Some \<lparr>uid = 1, role = ''member''\<rparr>) ''1''
                   [(''createdBy'', JNum 2), (''id'', JNum 99), (''createdAt'', JStr ''never'')]))
                 (Num 1) = Some e'
           \<and> getProp e' ''createdBy'' = JNum 2
           \<and> getProp e' ''id'' = JNum 99
           \<and> getProp e' ''createdAt'' = JStr ''never''
           \<and> getProp e' ''title'' = JStr ''Service'')"
proof -
  let ?E = "serviceEvent @ [(''id'', JNum 1), (''createdAt'', JDate 0)]"
  let ?u = "\<lparr>uid = 1, role = ''member''\<rparr>"
  let ?b = "[(''createdBy'', JNum 2), (''id'', JNum 99), (''createdAt'', JStr ''never'')]"
  have one: "parseInt ''1'' = Num 1"
    by (simp add: parseInt_def parseUnsigned_def parseDigits_def isDigit_def digitVal_def
        digitsVal_def isSpace_def Let_def)
  have E: "getEvent storeWithEvent (parseInt ''1'') = Some ?E"
    by (rule sample_lookup)
  have owner: "getProp ?E ''createdBy'' = JNum (uid ?u)"
    by (simp add: getProp_def serviceEvent_def)
  have title: "getProp ?E ''title'' = JStr ''Service''"
    by (simp add: getProp_def serviceEvent_def)
  have p: "patchOverwrites ''createdBy'' getEvent patchEventRoute"
    using patch_body_overwrites_any_field by simp
  from p [unfolded patchOverwrites_def, rule_format, of storeWithEvent "''1''" ?E ?u ?b] E owner
  obtain e' where r: "fst (patchEventRoute storeWithEvent (Some ?u) ''1'' ?b) = respond 200 (JObj e')"
    and st: "getEvent (snd (patchEventRoute storeWithEvent (Some ?u) ''1'' ?b)) (parseInt ''1'')
               = Some e'"
    and take: "\<And>k v. map_of ?b k = Some v \<Longrightarrow> getProp e' k = v"
    and keep: "\<And>k. map_of ?b k = None \<Longrightarrow> getProp e' k = getProp ?E k"
    by blast
  have "getProp e' ''createdBy'' = JNum 2" by (rule take) simp
  moreover have "getProp e' ''id'' = JNum 99" by (rule take) simp
  moreover have "getProp e' ''createdAt'' = JStr ''never''" by (rule take) simp
  moreover have "getProp e' ''title'' = JStr ''Service''" using keep [of "''title''"] title by simp
  ultimately show ?thesis using E owner r st one by auto
qed

subsection \<open>Passwords in responses\<close>

lemma omitProp_no_key: "k \<notin> set (map fst (omitProp k ob))"
  using AList.delete_notin_dom [of k ob] by (simp add: omitProp_def)

lemma omitProp_idem: "omitProp k (omitProp k ob) = omitProp k ob"
  by (simp add: omitProp_def AList.delete_idem)

lemma delete_update_cases:
  "AList.delete k (AList.update j v ob)
     = (if j = k then AList.delete k ob else AList.update j v (AList.delete k ob))"
  by (simp add: AList.delete_update_same AList.delete_update)

lemma omitProp_spread:
  "omitProp k (spread a b) = spread (omitProp k a) (omitProp k b)"
  unfolding omitProp_def spread_def
proof (induction b arbitrary: a)
  case Nil
  show ?case by simp
next
  case (Cons p b)
  show ?case by (simp add: Cons.IH delete_update_cases)
qed

lemma message_ok [simp]: "noPasswordField (message m)"
  by (simp add: noPasswordField_def withoutPasswordKey_def message_def)

lemma stripped_ok [simp]: "noPasswordField (JObj (omitProp ''password'' ob))"
  using omitProp_no_key [of "''password''" ob]
  by (simp add: noPasswordField_def withoutPasswordKey_def)

lemma stripped_list_ok [simp]:
  "noPasswordField (JArr (map (JObj \<circ> omitProp ''password'') xs))"
  using omitProp_no_key [of "''password''"]
  by (simp add: noPasswordField_def withoutPasswordKey_def list_all_iff)

lemma getUsers_no_password: "noPasswordField (body (fst (getUsersRoute s user)))"
  by (simp add: getUsersRoute_def isAdmin_def respond_def Let_def split: option.split)

lemma patchUser_no_password:
  "noPasswordField (body (fst (patchUserRoute s user idParam reqBody)))"
  by (simp add: patchUserRoute_def isAdmin_def respond_def updateUser_def Let_def
      split: option.split)

lemma public_values:
  "map (omitProp ''password'') (mapValues (usersData s)) = mapValues (publicUsers s)"
  by (simp add: mapValues_def publicUsers_def case_prod_unfold comp_def)

lemma public_lookup:
  "mapGet (publicUsers s) i = map_option (omitProp ''password'') (mapGet (usersData s) i)"
  unfolding mapGet_def publicUsers_def
  by (induction "usersData s" arbitrary: s) (simp_all add: map_of_map)

lemma getUsers_response:
  "fst (getUsersRoute s user)
     = (case user of
          None \<Rightarrow> respond 403 (message ''Forbidden'')
        | Some u \<Rightarrow>
            if role u = ''admin'' then respond 200 (JArr (map JObj (mapValues (publicUsers s))))
            else respond 403 (message ''Forbidden''))"
  by (simp add: getUsersRoute_def isAdmin_def getAllUsers_def public_values [symmetric] Let_def
      split: option.split)

lemma patchUser_response:
  "fst (patchUserRoute s user idParam reqBody)
     = (case user of
          None \<Rightarrow> respond 403 (message ''Forbidden'')
        | Some u \<Rightarrow>
            if role u = ''admin'' then
              (case mapGet (publicUsers s) (parseInt idParam) of
                 None \<Rightarrow> respond 404 (message ''User not found'')
               | Some pub \<Rightarrow> respond 200 (JObj (spread pub (omitProp ''password'' reqBody))))
            else respond 403 (message ''Forbidden''))"
  by (simp add: patchUserRoute_def isAdmin_def updateUser_def public_lookup omitProp_spread
      omitProp_idem Let_def split: option.split)

text \<open>
  C2. The responses that contain a user, the list of \<^verbatim>\<open>GET /api/users\<close> and the result of
  \<^verbatim>\<open>PATCH /api/users/:id\<close>, have no \<^verbatim>\<open>password\<close> field, whatever the stored passwords
  are: the response is the same for two stores that differ only in the \<^verbatim>\<open>password\<close>
  property of their users.
\<close>

theorem user_responses_carry_no_password:
  "noPasswordField (body (fst (getUsersRoute s user)))
   \<and> noPasswordField (body (fst (patchUserRoute s user idParam reqBody)))
   \<and> (samePublicUsers s s' \<longrightarrow>
         fst (getUsersRoute s user) = fst (getUsersRoute s' user)
         \<and> fst (patchUserRoute s user idParam reqBody)
             = fst (patchUserRoute s' user idParam reqBody))"
proof (intro conjI impI)
  show "noPasswordField (body (fst (getUsersRoute s user)))"
    by (rule getUsers_no_password)
  show "noPasswordField (body (fst (patchUserRoute s user idParam reqBody)))"
    by (rule patchUser_no_password)
next
  assume "samePublicUsers s s'"
  then have eq: "publicUsers s = publicUsers s'"
    by (simp add: samePublicUsers_def)
  show "fst (getUsersRoute s user) = fst (getUsersRoute s' user)"
    by (simp add: getUsers_response eq split: option.split)
  show "fst (patchUserRoute s user idParam reqBody) = fst (patchUserRoute s' user idParam reqBody)"
    by (simp add: patchUser_response eq split: option.split)
qed

lemma sample_users:
  "usersData storeWithUser = [(Num 1, anaUser @ [(''id'', JNum 1), (''createdAt'', JDate 0)])]"
  by (simp add: storeWithUser_def createUser_def newMemStorage_def mapSet_def setProp_def
      anaUser_def Let_def)

theorem user_responses_carry_no_password_witness:
  "samePublicUsers storeWithUser storeWithOtherPassword
   \<and> getProp (anaUser @ [(''id'', JNum 1), (''createdAt'', JDate 0)]) ''password'' = JStr ''hash-1''
   \<and> getUser storeWithUser (Num 1) = Some (anaUser @ [(''id'', JNum 1), (''createdAt'', JDate 0)])
   \<and> map (\<lambda>user. getProp user ''password'') (getAllUsers storeWithOtherPassword)
       = [JStr ''hash-2'']
   \<and> fst (getUsersRoute storeWithUser (Some adminUser))
       = respond 200 (JArr [JObj
           [(''username'', JStr ''ana''), (''name'', JStr ''Ana''),
            (''email'', JStr ''ana@example.org''), (''role'', JStr ''admin''),
            (''id'', JNum 1), (''createdAt'', JDate 0)]])
   \<and> fst (getUsersRoute storeWithUser (Some adminUser))
       = fst (getUsersRoute storeWithOtherPassword (Some adminUser))
   \<and> fst (patchUserRoute storeWithUser (Some adminUser) ''1''
             [(''name'', JStr ''Ana Lima''), (''password'', JStr ''mine'')])
       = respond 200 (JObj
           [(''username'', JStr ''ana''), (''name'', JStr ''Ana Lima''),
            (''email'', JStr ''ana@example.org''), (''role'', JStr ''admin''),
            (''id'', JNum 1), (''createdAt'', JDate 0)])
   \<and> fst (patchUserRoute storeWithUser (Some adminUser) ''1''
             [(''name'', JStr ''Ana Lima''), (''password'', JStr ''mine'')])
       = fst (patchUserRoute storeWithOtherPassword (Some adminUser) ''1''
             [(''name'', JStr ''Ana Lima''), (''password'', JStr ''mine'')])
   \<and> noPasswordField (body (fst (getUsersRoute storeWithUser (Some adminUser))))
   \<and> noPasswordField (body (fst (patchUserRoute storeWithUser (Some adminUser) ''1''
             [(''name'', JStr ''Ana Lima''), (''password'', JStr ''mine'')])))"
proof -
  let ?b = "[(''name'', JStr ''Ana Lima''), (''password'', JStr ''mine'')]"
  have one: "parseInt ''1'' = Num 1"
    by (simp add: parseInt_def parseUnsigned_def parseDigits_def isDigit_def digitVal_def
        digitsVal_def isSpace_def Let_def)
  have same: "samePublicUsers storeWithUser storeWithOtherPassword"
    by (simp add: samePublicUsers_def publicUsers_def storeWithOtherPassword_def sample_users
        omitProp_def setProp_def anaUser_def)
  have list: "fst (getUsersRoute storeWithUser (Some adminUser))
       = respond 200 (JArr [JObj
           [(''username'', JStr ''ana''), (''name'', JStr ''Ana''),
            (''email'', JStr ''ana@example.org''), (''role'', JStr ''admin''),
            (''id'', JNum 1), (''createdAt'', JDate 0)]])"
    by (simp add: getUsersRoute_def isAdmin_def adminUser_def getAllUsers_def mapValues_def
        sample_users omitProp_def anaUser_def Let_def)
  have patch: "fst (patchUserRoute storeWithUser (Some adminUser) ''1'' ?b)
       = respond 200 (JObj
           [(''username'', JStr ''ana''), (''name'', JStr ''Ana Lima''),
            (''email'', JStr ''ana@example.org''), (''role'', JStr ''admin''),
            (''id'', JNum 1), (''createdAt'', JDate 0)])"
    by (simp add: patchUserRoute_def isAdmin_def adminUser_def updateUser_def mapGet_def one
        sample_users omitProp_def spread_def anaUser_def Let_def)
  have pw: "getProp (anaUser @ [(''id'', JNum 1), (''createdAt'', JDate 0)]) ''password''
              = JStr ''hash-1''"
    by (simp add: getProp_def anaUser_def)
  have stored: "getUser storeWithUser (Num 1)
              = Some (anaUser @ [(''id'', JNum 1), (''createdAt'', JDate 0)])"
    by (simp add: getUser_def mapGet_def sample_users)
  have pw': "map (\<lambda>user. getProp user ''password'') (getAllUsers storeWithOtherPassword)
       = [JStr ''hash-2'']"
    by (simp add: getAllUsers_def mapValues_def storeWithOtherPassword_def sample_users
        getProp_def setProp_def anaUser_def)
  note inst = user_responses_carry_no_password
         [of storeWithUser "Some adminUser" "''1''" ?b storeWithOtherPassword]
  have a: "noPasswordField (body (fst (getUsersRoute storeWithUser (Some adminUser))))"
    and b: "noPasswordField (body (fst (patchUserRoute storeWithUser (Some adminUser) ''1'' ?b)))"
    using inst by blast+
  have c: "fst (getUsersRoute storeWithUser (Some adminUser))
             = fst (getUsersRoute storeWithOtherPassword (Some adminUser))"
    and d: "fst (patchUserRoute storeWithUser (Some adminUser) ''1'' ?b)
             = fst (patchUserRoute storeWithOtherPassword (Some adminUser) ''1'' ?b)"
    using inst same by blast+
  show ?thesis
    by (intro conjI) (rule same pw stored pw' list patch a b c d)+
qed

subsection \<open>Upcoming events\<close>











lemma four_events:
  "eventsData storeWithFourEvents =
     [(Num 1, eventAt ''plus1'' 103600000 @ [(''id'', JNum 1), (''createdAt'', JDate 0)]),
      (Num 2, eventAt ''plus3'' 110800000 @ [(''id'', JNum 2), (''createdAt'', JDate 0)]),
      (Num 3, eventAt ''minus1'' 96400000 @ [(''id'', JNum 3), (''createdAt'', JDate 0)]),
      (Num 4, eventAt ''plus2'' 107200000 @ [(''id'', JNum 4), (''createdAt'', JDate 0)])]"
  by (simp add: storeWithFourEvents_def createEvent_def newMemStorage_def mapSet_def
      setProp_def eventAt_def Let_def)

lemma four_events_start:
  "startTimeOf noHostDate (eventAt title t @ [(''id'', JNum i), (''createdAt'', JDate c)]) = Some t"
  by (simp add: startTimeOf_def getProp_def eventAt_def)



subsection \<open>The count parameter of the upcoming-events route\<close>






text \<open>
  A count with a leading no-break space is numeric: \<^verbatim>\<open>parseInt\<close> skips the space, and
  the route answers with that many events.
\<close>

lemma parseInt_skips_no_break_space: "parseInt [CHR 0xA0, CHR ''2''] = Num 2"
  by (simp add: parseInt_def parseUnsigned_def parseDigits_def isDigit_def digitVal_def
      digitsVal_def isSpace_def Let_def)

lemma count_with_no_break_space:
  "getUpcomingEventsRoute noHostDate 100000000 storeWithFourEvents (Some [CHR 0xA0, CHR ''2''])
     = (respond 200 (JArr
         [JObj (eventAt ''plus1'' 103600000 @ [(''id'', JNum 1), (''createdAt'', JDate 0)]),
          JObj (eventAt ''plus2'' 107200000 @ [(''id'', JNum 4), (''createdAt'', JDate 0)])]),
        storeWithFourEvents)"
  by (simp add: getUpcomingEventsRoute_def parseInt_skips_no_break_space getUpcomingEvents_def
      four_events mapValues_def isUpcoming_def compareStart_def four_events_start)


subsection \<open>Identifiers\<close>

lemma exec_counter:
  "counterOf k (snd (exec now s c)) = counterOf k s + (if isCreate k c then 1 else 0)"
proof (cases c)
  case (Create k' d)
  then show ?thesis
    by (cases k'; cases k)
       (simp_all add: createUser_def createEvent_def createStudy_def createPost_def
          createForumTopic_def createForumReply_def createSiteSetting_def Let_def)
next
  case (Update k' i d)
  then show ?thesis
    by (cases k'; cases k)
       (simp_all add: updateUser_def updateEvent_def updateStudy_def updatePost_def
          updateForumTopic_def updateForumReply_def updateSiteSetting_def Let_def
          split: option.split)
next
  case (Delete k' i)
  then show ?thesis
    by (cases k'; cases k)
       (simp_all add: deleteEvent_def deleteStudy_def deletePost_def deleteForumTopic_def
          deleteForumReply_def mapDelete_def Let_def)
qed

lemma exec_created:
  "createdId k (c, fst (exec now s c))
     = (if isCreate k c then Some (JNum (counterOf k s)) else None)"
proof (cases c)
  case (Create k' d)
  then show ?thesis
    by (cases k'; cases k)
       (simp_all add: createUser_def createEvent_def createStudy_def createPost_def
          createForumTopic_def createForumReply_def createSiteSetting_def Let_def
          getProp_setProp)
next
  case (Update k' i d)
  then show ?thesis by (cases k'; simp add: case_prod_unfold)
next
  case (Delete k' i)
  then show ?thesis by (cases k'; simp add: case_prod_unfold)
qed

lemma createdIds_Cons:
  "createdIds k (run s ((now, c) # cs))
     = (case createdId k (c, fst (exec now s c)) of None \<Rightarrow> [] | Some v \<Rightarrow> [v])
       @ createdIds k (run (snd (exec now s c)) cs)"
  by (simp add: createdIds_def case_prod_unfold Let_def List.map_filter_simps
      split: option.split)

lemma created_ids_are_counter_values:
  "createdIds k (run s cs)
     = map JNum [counterOf k s .. counterOf k s + int (length (filter (isCreate k) (map snd cs))) - 1]"
proof (induction cs arbitrary: s)
  case Nil
  show ?case by (simp add: createdIds_def)
next
  case (Cons p cs)
  obtain now c where p: "p = (now, c)" by (cases p)
  let ?s' = "snd (exec now s c)"
  let ?n = "int (length (filter (isCreate k) (map snd cs)))"
  have ih: "createdIds k (run ?s' cs) = map JNum [counterOf k ?s' .. counterOf k ?s' + ?n - 1]"
    by (rule Cons.IH)
  show ?case
  proof (cases "isCreate k c")
    case True
    have a: "createdIds k (run s (p # cs)) = JNum (counterOf k s) # createdIds k (run ?s' cs)"
      unfolding p createdIds_Cons exec_created using True by simp
    have b: "counterOf k ?s' = counterOf k s + 1"
      using True by (simp add: exec_counter)
    have len: "int (length (filter (isCreate k) (map snd (p # cs)))) = 1 + ?n"
      using True by (simp add: p)
    have u: "[counterOf k s .. counterOf k s + (1 + ?n) - 1]
            = counterOf k s # [counterOf k s + 1 .. counterOf k s + 1 + ?n - 1]"
      by (subst upto_rec1) (simp_all add: algebra_simps)
    show ?thesis
      unfolding a ih b len u by simp
  next
    case False
    have a: "createdIds k (run s (p # cs)) = createdIds k (run ?s' cs)"
      unfolding p createdIds_Cons exec_created using False by simp
    have b: "counterOf k ?s' = counterOf k s"
      using False by (simp add: exec_counter)
    have len: "int (length (filter (isCreate k) (map snd (p # cs)))) = ?n"
      using False by (simp add: p)
    show ?thesis
      unfolding a ih b len by simp
  qed
qed

lemma counters_start_at_one: "counterOf k newMemStorage = 1"
  by (cases k) (simp_all add: newMemStorage_def)

text \<open>
  C6. For every sequence of repository calls run from a new store, creates of one entity
  kind interleaved arbitrarily with updates, deletes and calls on other kinds, the ids
  returned by the creates of that kind are the numbers 1, 2, 3, ... in this order: positive,
  strictly increasing and pairwise distinct. No id is returned twice, whatever was deleted
  in between.
\<close>

theorem created_ids_increase:
  "\<exists>ns. createdIds k (run newMemStorage cs) = map JNum ns
       \<and> ns = [1 .. int (length (filter (isCreate k) (map snd cs)))]
       \<and> sorted_wrt (<) ns \<and> distinct ns \<and> (\<forall>n \<in> set ns. 0 < n)"
proof -
  let ?ns = "[1 .. int (length (filter (isCreate k) (map snd cs)))]"
  have "createdIds k (run newMemStorage cs) = map JNum ?ns"
    using created_ids_are_counter_values [of k newMemStorage cs]
    by (simp add: counters_start_at_one)
  moreover have "sorted_wrt (<) ?ns" by (rule sorted_wrt_upto)
  moreover have "distinct ?ns" by (rule distinct_upto)
  moreover have "\<forall>n \<in> set ?ns. 0 < n" by simp
  ultimately show ?thesis by blast
qed

text \<open>
  What the sample calls return: the ids of the events, the id of the post, the answer of
  the delete. The event created after the delete of event 2 has id 3.
\<close>

lemma sample_trace:
  "map (\<lambda>(c, r). case r of Created e \<Rightarrow> getProp e ''id'' | Deleted b \<Rightarrow> JBool b | _ \<Rightarrow> JNull)
     (run newMemStorage sampleCalls)
   = [JNum 1, JNum 2, JNum 1, JNull, JBool True, JNum 3]"
  by (simp add: sampleCalls_def newMemStorage_def createEvent_def createPost_def updateEvent_def
      deleteEvent_def mapDelete_def mapGet_def mapSet_def setProp_def spread_def getProp_def
      eventAt_def Let_def)

theorem created_ids_increase_witness:
  "createdIds Event (run newMemStorage sampleCalls) = [JNum 1, JNum 2, JNum 3]
   \<and> (3::int) \<in> set [1, 2, 3] \<and> (0::int) < 3
   \<and> map (\<lambda>(c, r). case r of Created e \<Rightarrow> getProp e ''id'' | Deleted b \<Rightarrow> JBool b | _ \<Rightarrow> JNull)
         (run newMemStorage sampleCalls)
       = [JNum 1, JNum 2, JNum 1, JNull, JBool True, JNum 3]"
proof -
  from created_ids_increase [of Event sampleCalls]
  obtain ns where ids: "createdIds Event (run newMemStorage sampleCalls) = map JNum ns"
    and ns: "ns = [1 .. int (length (filter (isCreate Event) (map snd sampleCalls)))]"
    and pos: "\<forall>n \<in> set ns. 0 < n"
    by blast
  have "int (length (filter (isCreate Event) (map snd sampleCalls))) = 3"
    by (simp add: sampleCalls_def)
  then have "ns = [1, 2, 3]"
    using ns by (simp add: upto.simps)
  with ids pos sample_trace show ?thesis by simp
qed

subsection \<open>Site settings by key\<close>

lemma strictEq_eq: "strictEq a b \<Longrightarrow> a = b"
  by (cases a; cases b) simp_all

lemma strictEq_sym: "strictEq a b = strictEq b a"
  by (cases a; cases b) auto

lemma find_update_unchanged:
  assumes "\<not> P v" and "\<And>r. map_of m k = Some r \<Longrightarrow> \<not> P r"
  shows "find P (map snd (AList.update k v m)) = find P (map snd m)"
  using assms
proof (induction m)
  case Nil
  then show ?case by simp
next
  case (Cons e m)
  then show ?case by (cases e) auto
qed

lemma find_update_new:
  assumes "P v" and "\<And>j x. (j, x) \<in> set m \<Longrightarrow> P x \<Longrightarrow> j = k"
  shows "find P (map snd (AList.update k v m)) = Some v"
  using assms
proof (induction m)
  case Nil
  then show ?case by simp
next
  case (Cons e m)
  obtain j x where e: "e = (j, x)" by (cases e)
  show ?case
  proof (cases "j = k")
    case True
    with e Cons.prems(1) show ?thesis by simp
  next
    case False
    then have "\<not> P x" using Cons.prems(2) [of j x] e by auto
    moreover have "find P (map snd (AList.update k v m)) = Some v"
      using Cons.IH Cons.prems by auto
    ultimately show ?thesis using e False by simp
  qed
qed

lemma set_update_distinct:
  "distinct (map fst m) \<Longrightarrow> set (AList.update k v m) = insert (k, v) {e \<in> set m. fst e \<noteq> k}"
proof (induction m)
  case Nil
  show ?case by simp
next
  case (Cons e m)
  then show ?case by (cases e) (auto simp: image_iff)
qed

lemma length_update:
  "length (AList.update k v m) = (if k \<in> fst ` set m then length m else Suc (length m))"
  by (induction m) auto

lemma at_most_one_match:
  assumes "distinct (map fst m)"
    and "\<And>i r j r'. (i, r) \<in> set m \<Longrightarrow> (j, r') \<in> set m \<Longrightarrow> P r \<Longrightarrow> P r' \<Longrightarrow> i = j"
  shows "length (filter P (map snd m)) \<le> 1"
  using assms
proof (induction m)
  case Nil
  show ?case by simp
next
  case (Cons e m)
  obtain i r where e: "e = (i, r)" by (cases e)
  have ih: "length (filter P (map snd m)) \<le> 1"
    using Cons by auto
  show ?case
  proof (cases "P r")
    case False
    with ih e show ?thesis by simp
  next
    case True
    have "\<And>j r'. (j, r') \<in> set m \<Longrightarrow> \<not> P r'"
    proof
      fix j r'
      assume in_m: "(j, r') \<in> set m" and "P r'"
      with True have "i = j" using Cons.prems(2) [of i r j r'] e by simp
      moreover have "i \<notin> fst ` set m" using Cons.prems(1) e by simp
      ultimately show False using in_m by force
    qed
    then have "filter P (map snd m) = []"
      by (auto simp: filter_empty_conv)
    with e show ?thesis by simp
  qed
qed

lemma settingsOk_new: "settingsOk newMemStorage"
  by (simp add: settingsOk_def newMemStorage_def)

lemma settingsOk_matches:
  assumes "settingsOk s"
  shows "length (keyMatches s k) \<le> 1"
  unfolding keyMatches_def getAllSiteSettings_def mapValues_def
proof (rule at_most_one_match)
  show "distinct (map fst (siteSettingsData s))"
    using assms by (simp add: settingsOk_def)
next
  fix i r j r'
  assume a: "(i, r) \<in> set (siteSettingsData s)" "(j, r') \<in> set (siteSettingsData s)"
    and m: "strictEq (getProp r ''key'') k" "strictEq (getProp r' ''key'') k"
  from m have "getProp r ''key'' = k" "getProp r' ''key'' = k"
    by (auto dest: strictEq_eq)
  with m have "strictEq (getProp r ''key'') (getProp r' ''key'')" by simp
  with a assms show "i = j"
    unfolding settingsOk_def by blast
qed

text \<open>The record found under a key is stored under its own \<^verbatim>\<open>id\<close>, and has that key.\<close>

lemma found_setting:
  assumes ok: "settingsOk s" and f: "getSiteSetting s key = Some e"
  shows "\<exists>n. getProp e ''id'' = JNum n \<and> mapGet (siteSettingsData s) (Num n) = Some e
            \<and> (Num n, e) \<in> set (siteSettingsData s) \<and> getProp e ''key'' = key
            \<and> strictEq key key"
proof -
  from f have "e \<in> set (mapValues (siteSettingsData s))"
    and m: "strictEq (getProp e ''key'') key"
    unfolding getSiteSetting_def by (auto simp: find_Some_iff)
  then obtain i where i: "(i, e) \<in> set (siteSettingsData s)"
    by (auto simp: mapValues_def)
  with ok obtain n where n: "i = Num n" "getProp e ''id'' = JNum n"
    unfolding settingsOk_def by blast
  have "mapGet (siteSettingsData s) (Num n) = Some e"
    using ok i n unfolding settingsOk_def mapGet_def by simp
  moreover have "getProp e ''key'' = key" using m by (rule strictEq_eq)
  ultimately show ?thesis using n i m by auto
qed

lemma settingData_props:
  "getProp (settingData key val u) ''key'' = key"
  "getProp (settingData key val u) ''value'' = val"
  "getProp (settingData key val u) ''updatedBy'' = JNum (uid u)"
  "map_of (settingData key val u) ''id'' = None"
  "map_of (settingData key val u) ''key'' = Some key"
  "map_of (settingData key val u) ''value'' = Some val"
  "map_of (settingData key val u) ''updatedBy'' = Some (JNum (uid u))"
  by (simp_all add: settingData_def getProp_def)

lemma updatedSetting_props:
  "getProp (updatedSetting now e key val u) ''key'' = key"
  "getProp (updatedSetting now e key val u) ''value'' = val"
  "getProp (updatedSetting now e key val u) ''updatedBy'' = JNum (uid u)"
  "getProp (updatedSetting now e key val u) ''id'' = getProp e ''id''"
  "getProp (updatedSetting now e key val u) ''updatedAt'' = JDate now"
  by (simp_all add: updatedSetting_def getProp_setProp getProp_spread settingData_props)

lemma createdSetting_props:
  "getProp (createdSetting now n key val u) ''key'' = key"
  "getProp (createdSetting now n key val u) ''value'' = val"
  "getProp (createdSetting now n key val u) ''updatedBy'' = JNum (uid u)"
  "getProp (createdSetting now n key val u) ''id'' = JNum n"
  "getProp (createdSetting now n key val u) ''updatedAt'' = JDate now"
  by (simp_all add: createdSetting_def getProp_setProp settingData_props)

lemma upsert_when_found:
  assumes ok: "settingsOk s" and f: "getSiteSetting s key = Some e"
  shows "updateSiteSetting now s (keyOf (getProp e ''id'')) (settingData key val u)
           = (Some (updatedSetting now e key val u),
              s\<lparr>siteSettingsData :=
                  AList.update (keyOf (getProp e ''id'')) (updatedSetting now e key val u)
                    (siteSettingsData s)\<rparr>)"
proof -
  from found_setting [OF ok f] obtain n where "getProp e ''id'' = JNum n"
    and "mapGet (siteSettingsData s) (Num n) = Some e"
    by blast
  then show ?thesis
    by (simp add: updateSiteSetting_def updatedSetting_def mapSet_def Let_def)
qed

lemma upsert_when_absent:
  "createSiteSetting now s (settingData key val u)
     = (createdSetting now (siteSettingIdCounter s) key val u,
        s\<lparr>siteSettingsData :=
            AList.update (Num (siteSettingIdCounter s))
              (createdSetting now (siteSettingIdCounter s) key val u) (siteSettingsData s),
          siteSettingIdCounter := siteSettingIdCounter s + 1\<rparr>)"
  by (simp add: createSiteSetting_def createdSetting_def mapSet_def Let_def)

text \<open>Writing one entry keeps the invariant when the entry's key collides with no other.\<close>

lemma settingsOk_write:
  assumes ok: "settingsOk s"
    and below: "n < c" "siteSettingIdCounter s \<le> c"
    and ident: "getProp r ''id'' = JNum n"
    and fresh: "\<And>j r'. (j, r') \<in> set (siteSettingsData s) \<Longrightarrow> j \<noteq> Num n \<Longrightarrow>
                  \<not> strictEq (getProp r ''key'') (getProp r' ''key'')"
  shows "settingsOk (s\<lparr>siteSettingsData := AList.update (Num n) r (siteSettingsData s),
                       siteSettingIdCounter := c\<rparr>)"
proof -
  let ?m = "siteSettingsData s"
  let ?m' = "AList.update (Num n) r ?m"
  have d: "distinct (map fst ?m)" using ok by (simp add: settingsOk_def)
  have set': "set ?m' = insert (Num n, r) {e \<in> set ?m. fst e \<noteq> Num n}"
    by (rule set_update_distinct [OF d])
  have d': "distinct (map fst ?m')" by (rule AList.distinct_update [OF d])
  have ids: "\<forall>(i, x) \<in> set ?m'. \<exists>k. i = Num k \<and> k < c \<and> getProp x ''id'' = JNum k"
  proof (clarify)
    fix i x
    assume "(i, x) \<in> set ?m'"
    then consider "i = Num n" "x = r" | "(i, x) \<in> set ?m" "i \<noteq> Num n"
      unfolding set' by auto
    then show "\<exists>k. i = Num k \<and> k < c \<and> getProp x ''id'' = JNum k"
    proof cases
      case 1
      then show ?thesis using below ident by simp
    next
      case 2
      with ok obtain k where "i = Num k" "k < siteSettingIdCounter s" "getProp x ''id'' = JNum k"
        unfolding settingsOk_def by blast
      then show ?thesis using below by auto
    qed
  qed
  have uniq: "\<forall>(i, x) \<in> set ?m'. \<forall>(j, y) \<in> set ?m'.
                strictEq (getProp x ''key'') (getProp y ''key'') \<longrightarrow> i = j"
  proof (clarify)
    fix i x j y
    assume a: "(i, x) \<in> set ?m'" "(j, y) \<in> set ?m'"
      and eq: "strictEq (getProp x ''key'') (getProp y ''key'')"
    from a(1) consider (new) "i = Num n" "x = r" | (old) "(i, x) \<in> set ?m" "i \<noteq> Num n"
      unfolding set' by auto
    then show "i = j"
    proof cases
      case new
      from a(2) consider "j = Num n" | "(j, y) \<in> set ?m" "j \<noteq> Num n"
        unfolding set' by auto
      then show ?thesis
      proof cases
        case 1
        with new show ?thesis by simp
      next
        case 2
        with fresh [of j y] eq new show ?thesis by simp
      qed
    next
      case old
      from a(2) consider "j = Num n" "y = r" | "(j, y) \<in> set ?m" "j \<noteq> Num n"
        unfolding set' by auto
      then show ?thesis
      proof cases
        case 1
        with fresh [of i x] eq old show ?thesis by (simp add: strictEq_sym [of "getProp x ''key''"])
      next
        case 2
        with old eq ok show ?thesis unfolding settingsOk_def by blast
      qed
    qed
  qed
  show ?thesis
    unfolding settingsOk_def using d' ids uniq by simp
qed

lemma absent_key_unmatched:
  assumes "getSiteSetting s key = None" and "(j, r') \<in> set (siteSettingsData s)"
  shows "\<not> strictEq key (getProp r' ''key'')"
proof -
  from assms(2) have "r' \<in> set (mapValues (siteSettingsData s))"
    by (force simp: mapValues_def)
  with assms(1) have "\<not> strictEq (getProp r' ''key'') key"
    unfolding getSiteSetting_def by (simp add: find_None_iff)
  then show ?thesis by (simp add: strictEq_sym [of key])
qed

lemma settingsOk_upsert:
  assumes ok: "settingsOk s"
  shows "settingsOk (upsertSetting now u key val s)"
proof (cases "getSiteSetting s key")
  case None
  have "settingsOk (s\<lparr>siteSettingsData :=
            AList.update (Num (siteSettingIdCounter s))
              (createdSetting now (siteSettingIdCounter s) key val u) (siteSettingsData s),
          siteSettingIdCounter := siteSettingIdCounter s + 1\<rparr>)"
  proof (rule settingsOk_write [OF ok])
    fix j r'
    assume "(j, r') \<in> set (siteSettingsData s)"
    then show "\<not> strictEq (getProp (createdSetting now (siteSettingIdCounter s) key val u) ''key'')
                   (getProp r' ''key'')"
      using absent_key_unmatched [OF None] by (simp add: createdSetting_props)
  qed (simp_all add: createdSetting_props)
  then show ?thesis
    by (simp add: upsertSetting_def None upsert_when_absent)
next
  case (Some e)
  from found_setting [OF ok Some] obtain n where n: "getProp e ''id'' = JNum n"
    and at: "(Num n, e) \<in> set (siteSettingsData s)" and k: "getProp e ''key'' = key"
    by blast
  have lt: "n < siteSettingIdCounter s"
    using ok at n unfolding settingsOk_def by fastforce
  have "settingsOk (s\<lparr>siteSettingsData :=
            AList.update (Num n) (updatedSetting now e key val u) (siteSettingsData s),
          siteSettingIdCounter := siteSettingIdCounter s\<rparr>)"
  proof (rule settingsOk_write [OF ok lt])
    fix j r'
    assume j: "(j, r') \<in> set (siteSettingsData s)" "j \<noteq> Num n"
    show "\<not> strictEq (getProp (updatedSetting now e key val u) ''key'') (getProp r' ''key'')"
    proof
      assume "strictEq (getProp (updatedSetting now e key val u) ''key'') (getProp r' ''key'')"
      then have "strictEq (getProp e ''key'') (getProp r' ''key'')"
        by (simp add: updatedSetting_props k)
      with ok at j(1) have "Num n = j" unfolding settingsOk_def by blast
      with j(2) show False by simp
    qed
  qed (simp_all add: updatedSetting_props n)
  moreover have "updateSiteSetting now s (Num n) (settingData key val u)
           = (Some (updatedSetting now e key val u),
              s\<lparr>siteSettingsData :=
                  AList.update (Num n) (updatedSetting now e key val u) (siteSettingsData s)\<rparr>)"
    using upsert_when_found [OF ok Some, of now val u] by (simp add: n)
  ultimately show ?thesis
    by (simp add: upsertSetting_def Some n)
qed
lemma upsertSetting_data:
  assumes ok: "settingsOk s"
  shows "\<exists>n. getProp (upsertedSetting now u key val s) ''id'' = JNum n
            \<and> (case getSiteSetting s key of
                  Some e \<Rightarrow> mapGet (siteSettingsData s) (Num n) = Some e
                | None \<Rightarrow> n = siteSettingIdCounter s)
            \<and> siteSettingsData (upsertSetting now u key val s)
                = AList.update (Num n) (upsertedSetting now u key val s) (siteSettingsData s)"
proof (cases "getSiteSetting s key")
  case None
  then show ?thesis
    by (simp add: upsertSetting_def upsertedSetting_def upsert_when_absent createdSetting_props)
next
  case (Some e)
  from found_setting [OF ok Some] obtain n where n: "getProp e ''id'' = JNum n"
    and at: "mapGet (siteSettingsData s) (Num n) = Some e"
    by blast
  then show ?thesis
    using upsert_when_found [OF ok Some, of now val u]
    by (simp add: upsertSetting_def upsertedSetting_def Some updatedSetting_props)
qed

lemma upsertedSetting_key: "getProp (upsertedSetting now u key val s) ''key'' = key"
  by (simp add: upsertedSetting_def updatedSetting_props createdSetting_props split: option.split)

lemma upsertedSetting_stamp:
  "getProp (upsertedSetting now u key val s) ''updatedBy'' = JNum (uid u)"
  "getProp (upsertedSetting now u key val s) ''value'' = val"
  by (simp_all add: upsertedSetting_def updatedSetting_props createdSetting_props
      split: option.split)

lemma counter_not_stored:
  assumes ok: "settingsOk s"
  shows "mapGet (siteSettingsData s) (Num (siteSettingIdCounter s)) = None"
proof (rule ccontr)
  assume "mapGet (siteSettingsData s) (Num (siteSettingIdCounter s)) \<noteq> None"
  then obtain r where "(Num (siteSettingIdCounter s), r) \<in> set (siteSettingsData s)"
    by (auto simp: mapGet_def dest: map_of_SomeD)
  with ok show False unfolding settingsOk_def by fastforce
qed

text \<open>
  Looking a key up after an upsert: the record just written when the key is the upserted
  one, and what the lookup gave before otherwise.
\<close>

lemma getSiteSetting_upsert:
  assumes ok: "settingsOk s"
  shows "getSiteSetting (upsertSetting now u key val s) k
           = (if strictEq key k then Some (upsertedSetting now u key val s)
              else getSiteSetting s k)"
proof -
  let ?P = "\<lambda>setting. strictEq (getProp setting ''key'') k"
  let ?v = "upsertedSetting now u key val s"
  from upsertSetting_data [OF ok, of now u key val] obtain n
    where n: "getProp ?v ''id'' = JNum n"
      and at: "case getSiteSetting s key of
                 Some e \<Rightarrow> mapGet (siteSettingsData s) (Num n) = Some e
               | None \<Rightarrow> n = siteSettingIdCounter s"
      and data: "siteSettingsData (upsertSetting now u key val s)
                   = AList.update (Num n) ?v (siteSettingsData s)"
    by blast
  have Pv: "?P ?v = strictEq key k" by (simp add: upsertedSetting_key)
  show ?thesis
  proof (cases "strictEq key k")
    case True
    then have kk: "key = k" by (rule strictEq_eq)
    have "find ?P (map snd (AList.update (Num n) ?v (siteSettingsData s))) = Some ?v"
    proof (rule find_update_new)
      show "?P ?v" using Pv True by simp
    next
      fix j x
      assume in_m: "(j, x) \<in> set (siteSettingsData s)" and Px: "?P x"
      show "j = Num n"
      proof (cases "getSiteSetting s key")
        case None
        from absent_key_unmatched [OF None in_m] Px kk show ?thesis
          by (simp add: strictEq_sym [of k])
      next
        case (Some e)
        from found_setting [OF ok Some] obtain m where m: "getProp e ''id'' = JNum m"
          and me: "mapGet (siteSettingsData s) (Num m) = Some e"
          and e_in: "(Num m, e) \<in> set (siteSettingsData s)"
          and ek: "getProp e ''key'' = key"
          by blast
        have "mapGet (siteSettingsData s) (Num n) = Some e" using at Some by simp
        then have "(Num n, e) \<in> set (siteSettingsData s)"
          by (auto simp: mapGet_def dest: map_of_SomeD)
        moreover have "strictEq (getProp x ''key'') (getProp e ''key'')"
          using Px ek kk by simp
        ultimately show ?thesis using ok in_m unfolding settingsOk_def by blast
      qed
    qed
    with True data show ?thesis
      by (simp add: getSiteSetting_def mapValues_def)
  next
    case False
    have "find ?P (map snd (AList.update (Num n) ?v (siteSettingsData s)))
            = find ?P (map snd (siteSettingsData s))"
    proof (rule find_update_unchanged)
      show "\<not> ?P ?v" using Pv False by simp
    next
      fix r
      assume r: "map_of (siteSettingsData s) (Num n) = Some r"
      show "\<not> ?P r"
      proof (cases "getSiteSetting s key")
        case None
        then have "n = siteSettingIdCounter s" using at by simp
        with counter_not_stored [OF ok] r show ?thesis by (simp add: mapGet_def)
      next
        case (Some e)
        then have "r = e" using at r by (simp add: mapGet_def)
        moreover have "getProp e ''key'' = key"
          using found_setting [OF ok Some] by blast
        ultimately show ?thesis using False by simp
      qed
    qed
    with False data show ?thesis
      by (simp add: getSiteSetting_def mapValues_def)
  qed
qed

lemma length_upsert:
  assumes ok: "settingsOk s"
  shows "length (getAllSiteSettings (upsertSetting now u key val s))
           = (case getSiteSetting s key of
                Some e \<Rightarrow> length (getAllSiteSettings s)
              | None \<Rightarrow> length (getAllSiteSettings s) + 1)"
proof -
  from upsertSetting_data [OF ok, of now u key val] obtain n
    where at: "case getSiteSetting s key of
                 Some e \<Rightarrow> mapGet (siteSettingsData s) (Num n) = Some e
               | None \<Rightarrow> n = siteSettingIdCounter s"
      and data: "siteSettingsData (upsertSetting now u key val s)
                   = AList.update (Num n) (upsertedSetting now u key val s) (siteSettingsData s)"
    by blast
  show ?thesis
  proof (cases "getSiteSetting s key")
    case None
    then have "mapGet (siteSettingsData s) (Num n) = None"
      using at counter_not_stored [OF ok] by simp
    then have "Num n \<notin> fst ` set (siteSettingsData s)"
      by (simp add: mapGet_def map_of_eq_None_iff)
    then show ?thesis
      by (simp add: None getAllSiteSettings_def mapValues_def data length_update)
  next
    case (Some e)
    then have "mapGet (siteSettingsData s) (Num n) = Some e" using at by simp
    then have "Num n \<in> fst ` set (siteSettingsData s)"
      by (force simp: mapGet_def dest: map_of_SomeD)
    then show ?thesis
      by (simp add: Some getAllSiteSettings_def mapValues_def data length_update)
  qed
qed

lemma upserted_is_stored:
  assumes ok: "settingsOk s"
  shows "upsertedSetting now u key val s \<in> set (getAllSiteSettings (upsertSetting now u key val s))"
proof -
  from upsertSetting_data [OF ok, of now u key val] obtain n
    where data: "siteSettingsData (upsertSetting now u key val s)
                   = AList.update (Num n) (upsertedSetting now u key val s) (siteSettingsData s)"
    by blast
  have "distinct (map fst (siteSettingsData s))" using ok by (simp add: settingsOk_def)
  then have "(Num n, upsertedSetting now u key val s)
               \<in> set (siteSettingsData (upsertSetting now u key val s))"
    by (simp add: data set_update_distinct)
  then show ?thesis
    by (force simp: getAllSiteSettings_def mapValues_def)
qed

text \<open>The handler, for an admin and a body with a truthy key, in terms of the upsert.\<close>

lemma postSiteSetting_admin:
  assumes ok: "settingsOk s" and admin: "role u = ''admin''"
    and k: "readProp reqBody ''key'' = Some key" and v: "readProp reqBody ''value'' = Some val"
    and t: "truthy key"
  shows "postSiteSettingRoute now s (Some u) reqBody
           = (respond (if getSiteSetting s key = None then 201 else 200)
                (JObj (upsertedSetting now u key val s)),
              upsertSetting now u key val s)"
proof (cases "getSiteSetting s key")
  case None
  then show ?thesis
    using admin k v t
    by (simp add: postSiteSettingRoute_def isAdmin_def upsertSetting_def upsertedSetting_def
        upsert_when_absent)
next
  case (Some e)
  then show ?thesis
    using admin k v t upsert_when_found [OF ok Some, of now val u]
    by (simp add: postSiteSettingRoute_def isAdmin_def upsertSetting_def upsertedSetting_def
        optJson_def)
qed

lemma postSiteSetting_store:
  "snd (postSiteSettingRoute now s user reqBody)
     = (case user of
          None \<Rightarrow> s
        | Some u \<Rightarrow>
            if role u = ''admin'' then
              (case readProp reqBody ''key'' of
                 None \<Rightarrow> s
               | Some key \<Rightarrow>
                   (case readProp reqBody ''value'' of
                      None \<Rightarrow> s
                    | Some val \<Rightarrow> if truthy key then upsertSetting now u key val s else s))
            else s)"
  by (simp add: postSiteSettingRoute_def isAdmin_def upsertSetting_def case_prod_unfold Let_def
      split: option.split)

lemma settingsOk_post:
  assumes "settingsOk s"
  shows "settingsOk (snd (postSiteSettingRoute now s user reqBody))"
  unfolding postSiteSetting_store
  using assms by (simp add: settingsOk_upsert split: option.split)

lemma settingsOk_postAll: "settingsOk s \<Longrightarrow> settingsOk (postAll s reqs)"
proof (induction reqs arbitrary: s)
  case Nil
  then show ?case by simp
next
  case (Cons r reqs)
  obtain now user reqBody where r: "r = (now, user, reqBody)" by (cases r)
  show ?case
    using Cons by (simp add: r settingsOk_post)
qed
text \<open>
  C4. \<^verbatim>\<open>POST /api/site-settings\<close> by an admin with a key that a record has updates that
  record and answers 200 (the number of records stays); with a key that no record has it
  creates a record and answers 201. The collection starts, and after every such request
  stays, with at most one record per key, so \<^verbatim>\<open>getSiteSetting\<close> never has two records to
  choose from, after any sequence of these requests.
\<close>

theorem site_setting_upsert_keeps_one_record_per_key:
  "settingsOk newMemStorage
   \<and> (settingsOk s \<longrightarrow>
        settingsOk (snd (postSiteSettingRoute now s user reqBody))
        \<and> (\<forall>k. length (keyMatches (snd (postSiteSettingRoute now s user reqBody)) k) \<le> 1))
   \<and> (settingsOk s \<and> role u = ''admin'' \<and> readProp reqBody ''key'' = Some key
        \<and> readProp reqBody ''value'' = Some val \<and> truthy key \<longrightarrow>
        (case getSiteSetting s key of
           Some e \<Rightarrow>
             fst (postSiteSettingRoute now s (Some u) reqBody)
               = respond 200 (JObj (updatedSetting now e key val u))
             \<and> getSiteSetting (snd (postSiteSettingRoute now s (Some u) reqBody)) key
                 = Some (updatedSetting now e key val u)
             \<and> length (getAllSiteSettings (snd (postSiteSettingRoute now s (Some u) reqBody)))
                 = length (getAllSiteSettings s)
         | None \<Rightarrow>
             fst (postSiteSettingRoute now s (Some u) reqBody)
               = respond 201 (JObj (createdSetting now (siteSettingIdCounter s) key val u))
             \<and> createdSetting now (siteSettingIdCounter s) key val u
                 \<in> set (getAllSiteSettings (snd (postSiteSettingRoute now s (Some u) reqBody)))
             \<and> (strictEq key key \<longrightarrow>
                   getSiteSetting (snd (postSiteSettingRoute now s (Some u) reqBody)) key
                     = Some (createdSetting now (siteSettingIdCounter s) key val u))
             \<and> length (getAllSiteSettings (snd (postSiteSettingRoute now s (Some u) reqBody)))
                 = length (getAllSiteSettings s) + 1))
   \<and> (\<forall>k. length (keyMatches (postAll newMemStorage reqs) k) \<le> 1)"
proof (intro conjI impI allI)
  show "settingsOk newMemStorage" by (rule settingsOk_new)
next
  assume "settingsOk s"
  then show "settingsOk (snd (postSiteSettingRoute now s user reqBody))"
    by (rule settingsOk_post)
next
  fix k
  assume "settingsOk s"
  then have "settingsOk (snd (postSiteSettingRoute now s user reqBody))"
    by (rule settingsOk_post)
  then show "length (keyMatches (snd (postSiteSettingRoute now s user reqBody)) k) \<le> 1"
    by (rule settingsOk_matches)
next
  fix k
  have "settingsOk (postAll newMemStorage reqs)"
    by (rule settingsOk_postAll [OF settingsOk_new])
  then show "length (keyMatches (postAll newMemStorage reqs) k) \<le> 1"
    by (rule settingsOk_matches)
next
  assume a: "settingsOk s \<and> role u = ''admin'' \<and> readProp reqBody ''key'' = Some key
        \<and> readProp reqBody ''value'' = Some val \<and> truthy key"
  then have ok: "settingsOk s" by simp
  have r: "postSiteSettingRoute now s (Some u) reqBody
           = (respond (if getSiteSetting s key = None then 201 else 200)
                (JObj (upsertedSetting now u key val s)),
              upsertSetting now u key val s)"
    using a by (intro postSiteSetting_admin) simp_all
  show "case getSiteSetting s key of
           Some e \<Rightarrow>
             fst (postSiteSettingRoute now s (Some u) reqBody)
               = respond 200 (JObj (updatedSetting now e key val u))
             \<and> getSiteSetting (snd (postSiteSettingRoute now s (Some u) reqBody)) key
                 = Some (updatedSetting now e key val u)
             \<and> length (getAllSiteSettings (snd (postSiteSettingRoute now s (Some u) reqBody)))
                 = length (getAllSiteSettings s)
         | None \<Rightarrow>
             fst (postSiteSettingRoute now s (Some u) reqBody)
               = respond 201 (JObj (createdSetting now (siteSettingIdCounter s) key val u))
             \<and> createdSetting now (siteSettingIdCounter s) key val u
                 \<in> set (getAllSiteSettings (snd (postSiteSettingRoute now s (Some u) reqBody)))
             \<and> (strictEq key key \<longrightarrow>
                   getSiteSetting (snd (postSiteSettingRoute now s (Some u) reqBody)) key
                     = Some (createdSetting now (siteSettingIdCounter s) key val u))
             \<and> length (getAllSiteSettings (snd (postSiteSettingRoute now s (Some u) reqBody)))
                 = length (getAllSiteSettings s) + 1"
  proof (cases "getSiteSetting s key")
    case None
    have v: "upsertedSetting now u key val s
               = createdSetting now (siteSettingIdCounter s) key val u"
      by (simp add: upsertedSetting_def None)
    show ?thesis
      using upserted_is_stored [OF ok, of now u key val]
        getSiteSetting_upsert [OF ok, of now u key val key]
        length_upsert [OF ok, of now u key val]
      by (simp add: None r v)
  next
    case (Some e)
    have v: "upsertedSetting now u key val s = updatedSetting now e key val u"
      by (simp add: upsertedSetting_def Some)
    have "strictEq key key"
      using found_setting [OF ok Some] by blast
    then show ?thesis
      using getSiteSetting_upsert [OF ok, of now u key val key]
        length_upsert [OF ok, of now u key val]
      by (simp add: Some r v)
  qed
qed

lemma store_after_A:
  "storeAfterA =
     newMemStorage\<lparr>siteSettingsData := [(Num 1, siteNameRecord ''A'' 1)],
       siteSettingIdCounter := 2\<rparr>"
  by (simp add: storeAfterA_def postSiteSettingRoute_def isAdmin_def adminUser_def
      siteNameBody_def readProp_def getProp_def getSiteSetting_def mapValues_def
      createSiteSetting_def settingData_def setProp_def mapSet_def siteNameRecord_def
      newMemStorage_def Let_def)

lemma store_after_B:
  "postAll newMemStorage siteNameRequests =
     newMemStorage\<lparr>siteSettingsData := [(Num 1, siteNameRecord ''B'' 2)],
       siteSettingIdCounter := 2\<rparr>"
proof -
  have "snd (postSiteSettingRoute 2 storeAfterA (Some adminUser) (siteNameBody ''B''))
          = newMemStorage\<lparr>siteSettingsData := [(Num 1, siteNameRecord ''B'' 2)],
              siteSettingIdCounter := 2\<rparr>"
    by (simp add: store_after_A postSiteSettingRoute_def isAdmin_def adminUser_def
        siteNameBody_def readProp_def getProp_def getSiteSetting_def mapValues_def
        updateSiteSetting_def settingData_def setProp_def spread_def mapSet_def mapGet_def
        siteNameRecord_def newMemStorage_def Let_def)
  then show ?thesis
    by (simp add: siteNameRequests_def storeAfterA_def)
qed

theorem site_setting_upsert_keeps_one_record_per_key_witness:
  "settingsOk newMemStorage
   \<and> role adminUser = ''admin''
   \<and> readProp (siteNameBody ''B'') ''key'' = Some (JStr ''siteName'')
   \<and> readProp (siteNameBody ''B'') ''value'' = Some (JStr ''B'')
   \<and> truthy (JStr ''siteName'')
   \<and> getSiteSetting newMemStorage (JStr ''siteName'') = None
   \<and> status (fst (postSiteSettingRoute 1 newMemStorage (Some adminUser) (siteNameBody ''A'')))
       = 201
   \<and> settingsOk storeAfterA
   \<and> getSiteSetting storeAfterA (JStr ''siteName'') = Some (siteNameRecord ''A'' 1)
   \<and> fst (postSiteSettingRoute 2 storeAfterA (Some adminUser) (siteNameBody ''B''))
       = respond 200 (JObj (siteNameRecord ''B'' 2))
   \<and> length (getAllSiteSettings
         (snd (postSiteSettingRoute 2 storeAfterA (Some adminUser) (siteNameBody ''B'')))) = 1
   \<and> keyMatches (postAll newMemStorage siteNameRequests) (JStr ''siteName'')
       = [siteNameRecord ''B'' 2]
   \<and> getProp (siteNameRecord ''B'' 2) ''value'' = JStr ''B''
   \<and> length (keyMatches (postAll newMemStorage siteNameRequests) (JStr ''siteName'')) \<le> 1"
proof -
  note inst = site_setting_upsert_keeps_one_record_per_key
  have new: "settingsOk newMemStorage" using inst by blast
  have admin: "role adminUser = ''admin''" by (simp add: adminUser_def)
  have key: "readProp (siteNameBody v) ''key'' = Some (JStr ''siteName'')"
    and val: "readProp (siteNameBody v) ''value'' = Some (JStr v)" for v
    by (simp_all add: siteNameBody_def readProp_def getProp_def)
  have t: "truthy (JStr ''siteName'')" by simp
  have none: "getSiteSetting newMemStorage (JStr ''siteName'') = None"
    by (simp add: getSiteSetting_def newMemStorage_def mapValues_def)
  have okA: "settingsOk storeAfterA"
    using inst [of newMemStorage 1 "Some adminUser" "siteNameBody ''A''"] new
    by (simp add: storeAfterA_def)
  have first: "status (fst (postSiteSettingRoute 1 newMemStorage (Some adminUser)
                  (siteNameBody ''A''))) = 201"
    using inst [of newMemStorage 1 "Some adminUser" "siteNameBody ''A''" adminUser
                  "JStr ''siteName''" "JStr ''A''"] new admin key val none
    by (simp add: respond_def)
  have found: "getSiteSetting storeAfterA (JStr ''siteName'') = Some (siteNameRecord ''A'' 1)"
    by (simp add: store_after_A getSiteSetting_def mapValues_def siteNameRecord_def getProp_def)
  have upd: "updatedSetting 2 (siteNameRecord ''A'' 1) (JStr ''siteName'') (JStr ''B'') adminUser
               = siteNameRecord ''B'' 2"
    by (simp add: updatedSetting_def siteNameRecord_def settingData_def spread_def setProp_def
        adminUser_def)
  have all: "length (getAllSiteSettings storeAfterA) = 1"
    by (simp add: store_after_A getAllSiteSettings_def mapValues_def)
  have second: "fst (postSiteSettingRoute 2 storeAfterA (Some adminUser) (siteNameBody ''B''))
                  = respond 200 (JObj (siteNameRecord ''B'' 2))"
    and count: "length (getAllSiteSettings
         (snd (postSiteSettingRoute 2 storeAfterA (Some adminUser) (siteNameBody ''B'')))) = 1"
    using inst [of storeAfterA 2 "Some adminUser" "siteNameBody ''B''" adminUser
                  "JStr ''siteName''" "JStr ''B''"] okA admin key val found
    by (simp_all add: upd all)
  have matches: "keyMatches (postAll newMemStorage siteNameRequests) (JStr ''siteName'')
                   = [siteNameRecord ''B'' 2]"
    by (simp add: store_after_B keyMatches_def getAllSiteSettings_def mapValues_def
        siteNameRecord_def getProp_def)
  have b: "getProp (siteNameRecord ''B'' 2) ''value'' = JStr ''B''"
    by (simp add: siteNameRecord_def getProp_def)
  have le: "length (keyMatches (postAll newMemStorage siteNameRequests) (JStr ''siteName'')) \<le> 1"
    using inst [where reqs = siteNameRequests] by blast
  show ?thesis
    by (intro conjI) (rule new admin key val t none first okA found second count matches b le)+
qed

subsection \<open>The batch of site settings\<close>

lemma readProp_defined:
  "item \<noteq> JNull \<Longrightarrow> item \<noteq> JUndefined \<Longrightarrow> readProp item k = Some (itemProp item k)"
  by (cases item) (simp_all add: readProp_def itemProp_def)

lemma readProp_null: "readProp JNull k = None" "readProp JUndefined k = None"
  by (simp_all add: readProp_def)

text \<open>One round of the loop on an item that can be destructured.\<close>

lemma batchLoop_step:
  assumes "item \<noteq> JNull" "item \<noteq> JUndefined"
  shows "\<exists>r. batchLoop clock u i (item # items) s results
           = batchLoop clock u (i + 1) items
               (if hasKey item
                then upsertSetting (clock i) u (itemProp item ''key'') (itemProp item ''value'') s
                else s)
               (if hasKey item then results @ [r] else results)"
proof (cases "hasKey item")
  case False
  then show ?thesis
    using assms by (simp add: readProp_defined hasKey_def)
next
  case True
  then show ?thesis
    using assms
    by (cases "getSiteSetting s (itemProp item ''key'')";
        simp add: readProp_defined hasKey_def upsertSetting_def case_prod_unfold Let_def;
        blast)
qed

lemma batchLoop_all:
  assumes "\<forall>item \<in> set items. item \<noteq> JNull \<and> item \<noteq> JUndefined"
  shows "\<exists>rs. length rs = length (filter hasKey items)
            \<and> batchLoop clock u i items s results
                = (Some (results @ rs), upsertItems clock u i items s)"
  using assms
proof (induction items arbitrary: i s results)
  case Nil
  show ?case by simp
next
  case (Cons item items)
  let ?s1 = "if hasKey item
             then upsertSetting (clock i) u (itemProp item ''key'') (itemProp item ''value'') s
             else s"
  from Cons.prems have ok: "item \<noteq> JNull" "item \<noteq> JUndefined" by simp_all
  from batchLoop_step [OF ok, of clock u i items s results] obtain r
    where step: "batchLoop clock u i (item # items) s results
                   = batchLoop clock u (i + 1) items ?s1
                       (if hasKey item then results @ [r] else results)"
    by blast
  from Cons.IH [of "i + 1" ?s1 "if hasKey item then results @ [r] else results"] Cons.prems
  obtain rs where rs: "length rs = length (filter hasKey items)"
    and rest: "batchLoop clock u (i + 1) items ?s1 (if hasKey item then results @ [r] else results)
                 = (Some ((if hasKey item then results @ [r] else results) @ rs),
                    upsertItems clock u (i + 1) items ?s1)"
    by auto
  show ?case
  proof (cases "hasKey item")
    case True
    have "length (r # rs) = length (filter hasKey (item # items))"
      using True rs by simp
    moreover have "batchLoop clock u i (item # items) s results
                     = (Some (results @ r # rs), upsertItems clock u i (item # items) s)"
      using True step rest by simp
    ultimately show ?thesis by blast
  next
    case False
    have "length rs = length (filter hasKey (item # items))"
      using False rs by simp
    moreover have "batchLoop clock u i (item # items) s results
                     = (Some (results @ rs), upsertItems clock u i (item # items) s)"
      using False step rest by simp
    ultimately show ?thesis by blast
  qed
qed

text \<open>An item that is \<^verbatim>\<open>null\<close> stops the loop with the exception.\<close>

lemma batchLoop_null:
  assumes "\<exists>item \<in> set items. item = JNull \<or> item = JUndefined"
  shows "fst (batchLoop clock u i items s results) = None"
  using assms
proof (induction items arbitrary: i s results)
  case Nil
  then show ?case by simp
next
  case (Cons item items)
  show ?case
  proof (cases "item = JNull \<or> item = JUndefined")
    case True
    then show ?thesis by (auto simp: readProp_null)
  next
    case False
    then have ok: "item \<noteq> JNull" "item \<noteq> JUndefined" by simp_all
    from Cons.prems False have rest: "\<exists>x \<in> set items. x = JNull \<or> x = JUndefined" by auto
    from batchLoop_step [OF ok, of clock u i items s results] obtain r
      where "batchLoop clock u i (item # items) s results
               = batchLoop clock u (i + 1) items
                   (if hasKey item
                    then upsertSetting (clock i) u (itemProp item ''key'') (itemProp item ''value'') s
                    else s)
                   (if hasKey item then results @ [r] else results)"
      by blast
    then show ?thesis
      using Cons.IH [OF rest] by simp
  qed
qed

lemma settingsOk_upsertItems:
  "settingsOk s \<Longrightarrow> settingsOk (upsertItems clock u i items s)"
  by (induction items arbitrary: i s) (simp_all add: settingsOk_upsert)

text \<open>A record stamped by the principal under a key stays so through later upserts.\<close>

lemma stamped_kept:
  assumes "settingsOk s"
    and "\<exists>r. getSiteSetting s k = Some r \<and> getProp r ''updatedBy'' = JNum (uid u)"
  shows "\<exists>r. getSiteSetting (upsertItems clock u i items s) k = Some r
            \<and> getProp r ''updatedBy'' = JNum (uid u)"
  using assms
proof (induction items arbitrary: i s)
  case Nil
  then show ?case by simp
next
  case (Cons item items)
  let ?s1 = "upsertSetting (clock i) u (itemProp item ''key'') (itemProp item ''value'') s"
  show ?case
  proof (cases "hasKey item")
    case False
    then show ?thesis using Cons by simp
  next
    case True
    have ok1: "settingsOk ?s1" using Cons.prems(1) by (rule settingsOk_upsert)
    have "\<exists>r. getSiteSetting ?s1 k = Some r \<and> getProp r ''updatedBy'' = JNum (uid u)"
      using Cons.prems(2)
      by (simp add: getSiteSetting_upsert [OF Cons.prems(1)] upsertedSetting_stamp)
    from Cons.IH [OF ok1 this] True show ?thesis by simp
  qed
qed

lemma stamped_after_batch:
  assumes "settingsOk s" and "item \<in> set items" and "hasKey item"
    and "strictEq (itemProp item ''key'') (itemProp item ''key'')"
  shows "\<exists>r. getSiteSetting (upsertItems clock u i items s) (itemProp item ''key'') = Some r
            \<and> getProp r ''updatedBy'' = JNum (uid u)"
  using assms(1,2)
proof (induction items arbitrary: i s)
  case Nil
  then show ?case by simp
next
  case (Cons x items)
  let ?s1 = "if hasKey x
             then upsertSetting (clock i) u (itemProp x ''key'') (itemProp x ''value'') s
             else s"
  have ok1: "settingsOk ?s1" using Cons.prems(1) by (simp add: settingsOk_upsert)
  show ?case
  proof (cases "item \<in> set items")
    case True
    from Cons.IH [OF ok1 True] show ?thesis by simp
  next
    case False
    then have x: "x = item" using Cons.prems(2) by simp
    have "\<exists>r. getSiteSetting ?s1 (itemProp item ''key'') = Some r
             \<and> getProp r ''updatedBy'' = JNum (uid u)"
      using assms(3,4)
      by (simp add: x getSiteSetting_upsert [OF Cons.prems(1)] upsertedSetting_stamp)
    from stamped_kept [OF ok1 this] show ?thesis by simp
  qed
qed

lemma upsertItems_skips:
  "\<forall>item \<in> set items. \<not> hasKey item \<Longrightarrow> upsertItems clock u i items s = s"
  by (induction items arbitrary: i) simp_all
lemma batch_route_ok:
  assumes "role u = ''admin''" and "\<forall>item \<in> set items. item \<noteq> JNull \<and> item \<noteq> JUndefined"
  shows "postSiteSettingsBatchRoute clock s (Some u) (JArr items)
           = (respond 200
                (JObj [(''message'', JStr ''Settings updated''),
                       (''count'', JNum (int (length (filter hasKey items))))]),
              upsertItems clock u 0 items s)"
proof -
  from batchLoop_all [OF assms(2), of clock u 0 s "[]"] obtain rs
    where "length rs = length (filter hasKey items)"
      and "batchLoop clock u 0 items s [] = (Some rs, upsertItems clock u 0 items s)"
    by auto
  then show ?thesis
    using assms(1) by (simp add: postSiteSettingsBatchRoute_def isAdmin_def)
qed

lemma batch_route_null:
  assumes "role u = ''admin''" and "\<exists>item \<in> set items. item = JNull \<or> item = JUndefined"
  shows "fst (postSiteSettingsBatchRoute clock s (Some u) (JArr items))
           = respond 500 (message ''Error updating site settings'')"
proof -
  have "fst (batchLoop clock u 0 items s []) = None"
    by (rule batchLoop_null [OF assms(2)])
  then obtain s' where "batchLoop clock u 0 items s [] = (None, s')"
    by (cases "batchLoop clock u 0 items s []") simp
  then show ?thesis
    using assms(1) by (simp add: postSiteSettingsBatchRoute_def isAdmin_def)
qed

text \<open>
  The batch handler on an array none of whose items is \<^verbatim>\<open>null\<close>: it answers 200 with a
  count equal to the number of items that have a key, and leaves the store that upserting
  these items in order gives (update if the key exists, else create); items without a
  key, whether objects, numbers, strings, booleans or arrays, change nothing and are not
  reported. Each upsert stamps the principal as \<^verbatim>\<open>updatedBy\<close>: after the batch the record
  found under the key of an item has the principal's id there. An array that holds
  \<^verbatim>\<open>null\<close> is answered with 500.
\<close>

lemma batch_upserts_items_that_have_a_key:
  "(role u = ''admin'' \<and> (\<forall>item \<in> set items. item \<noteq> JNull \<and> item \<noteq> JUndefined) \<longrightarrow>
      postSiteSettingsBatchRoute clock s (Some u) (JArr items)
        = (respond 200
             (JObj [(''message'', JStr ''Settings updated''),
                    (''count'', JNum (int (length (filter hasKey items))))]),
           upsertItems clock u 0 items s))
   \<and> ((\<forall>item \<in> set items. \<not> hasKey item) \<longrightarrow> upsertItems clock u 0 items s = s)
   \<and> (settingsOk s \<longrightarrow>
         settingsOk (upsertItems clock u 0 items s)
         \<and> (\<forall>item \<in> set items.
               hasKey item \<and> strictEq (itemProp item ''key'') (itemProp item ''key'') \<longrightarrow>
               (\<exists>r. getSiteSetting (upsertItems clock u 0 items s) (itemProp item ''key'') = Some r
                    \<and> getProp r ''key'' = itemProp item ''key''
                    \<and> getProp r ''updatedBy'' = JNum (uid u))))
   \<and> (role u = ''admin'' \<and> (\<exists>item \<in> set items. item = JNull \<or> item = JUndefined) \<longrightarrow>
         fst (postSiteSettingsBatchRoute clock s (Some u) (JArr items))
           = respond 500 (message ''Error updating site settings''))"
proof (intro conjI impI ballI)
  assume "role u = ''admin'' \<and> (\<forall>item \<in> set items. item \<noteq> JNull \<and> item \<noteq> JUndefined)"
  then show "postSiteSettingsBatchRoute clock s (Some u) (JArr items)
        = (respond 200
             (JObj [(''message'', JStr ''Settings updated''),
                    (''count'', JNum (int (length (filter hasKey items))))]),
           upsertItems clock u 0 items s)"
    by (intro batch_route_ok) simp_all
next
  assume "\<forall>item \<in> set items. \<not> hasKey item"
  then show "upsertItems clock u 0 items s = s"
    by (rule upsertItems_skips)
next
  assume "settingsOk s"
  then show "settingsOk (upsertItems clock u 0 items s)"
    by (rule settingsOk_upsertItems)
next
  fix item
  assume ok: "settingsOk s" and item: "item \<in> set items"
    and k: "hasKey item \<and> strictEq (itemProp item ''key'') (itemProp item ''key'')"
  from stamped_after_batch [OF ok item, of clock u 0] k
  obtain r where r: "getSiteSetting (upsertItems clock u 0 items s) (itemProp item ''key'') = Some r"
    and st: "getProp r ''updatedBy'' = JNum (uid u)"
    by blast
  have "settingsOk (upsertItems clock u 0 items s)"
    using ok by (rule settingsOk_upsertItems)
  from found_setting [OF this r] have "getProp r ''key'' = itemProp item ''key''"
    by blast
  with r st
  show "\<exists>r. getSiteSetting (upsertItems clock u 0 items s) (itemProp item ''key'') = Some r
           \<and> getProp r ''key'' = itemProp item ''key''
           \<and> getProp r ''updatedBy'' = JNum (uid u)"
    by blast
next
  assume "role u = ''admin'' \<and> (\<exists>item \<in> set items. item = JNull \<or> item = JUndefined)"
  then show "fst (postSiteSettingsBatchRoute clock s (Some u) (JArr items))
           = respond 500 (message ''Error updating site settings'')"
    by (intro batch_route_null) simp_all
qed

lemma sampleBatch_keys:
  "hasKey (JObj [(''key'', JStr ''a''), (''value'', JStr ''1'')])"
  "hasKey (JObj [(''key'', JStr ''b''), (''value'', JStr ''2'')])"
  "\<not> hasKey (JObj [(''foo'', JStr ''bad'')])"
  "\<not> hasKey JNull"
  by (simp_all add: hasKey_def itemProp_def readProp_def getProp_def)

text \<open>The body \<^verbatim>\<open>[{key:"a",value:"1"},{key:"b",value:"2"},{foo:"bad"}]\<close> yields count 2.\<close>

lemma batch_upserts_items_that_have_a_key_example:
  "role adminUser = ''admin''
   \<and> JNull \<notin> set sampleBatch \<and> JUndefined \<notin> set sampleBatch
   \<and> postSiteSettingsBatchRoute noClock newMemStorage (Some adminUser) (JArr sampleBatch)
       = (respond 200 (JObj [(''message'', JStr ''Settings updated''), (''count'', JNum 2)]),
          upsertItems noClock adminUser 0 sampleBatch newMemStorage)
   \<and> settingsOk newMemStorage
   \<and> JObj [(''key'', JStr ''b''), (''value'', JStr ''2'')] \<in> set sampleBatch
   \<and> hasKey (JObj [(''key'', JStr ''b''), (''value'', JStr ''2'')])
   \<and> strictEq (JStr ''b'') (JStr ''b'')
   \<and> (\<exists>r. getSiteSetting (upsertItems noClock adminUser 0 sampleBatch newMemStorage) (JStr ''b'')
             = Some r
          \<and> getProp r ''key'' = JStr ''b''
          \<and> getProp r ''updatedBy'' = JNum 1)
   \<and> length (getAllSiteSettings (upsertItems noClock adminUser 0 sampleBatch newMemStorage)) = 2"
proof -
  note inst = batch_upserts_items_that_have_a_key
                [of adminUser sampleBatch noClock newMemStorage]
  let ?b = "JObj [(''key'', JStr ''b''), (''value'', JStr ''2'')]"
  have admin: "role adminUser = ''admin''" by (simp add: adminUser_def)
  have items: "\<forall>item \<in> set sampleBatch. item \<noteq> JNull \<and> item \<noteq> JUndefined"
    by (simp add: sampleBatch_def)
  have items': "JNull \<notin> set sampleBatch" "JUndefined \<notin> set sampleBatch"
    by (simp_all add: sampleBatch_def)
  have cnt: "int (length (filter hasKey sampleBatch)) = 2"
    by (simp add: sampleBatch_def sampleBatch_keys)
  have resp: "postSiteSettingsBatchRoute noClock newMemStorage (Some adminUser) (JArr sampleBatch)
       = (respond 200 (JObj [(''message'', JStr ''Settings updated''), (''count'', JNum 2)]),
          upsertItems noClock adminUser 0 sampleBatch newMemStorage)"
    using inst admin items cnt by simp
  have ok: "settingsOk newMemStorage" by (rule settingsOk_new)
  have mem: "?b \<in> set sampleBatch" by (simp add: sampleBatch_def)
  have hk: "hasKey ?b" by (rule sampleBatch_keys)
  have kb: "itemProp ?b ''key'' = JStr ''b''"
    by (simp add: itemProp_def readProp_def getProp_def)
  have prim: "strictEq (JStr ''b'') (JStr ''b'')" by simp
  have stamped: "\<exists>r. getSiteSetting (upsertItems noClock adminUser 0 sampleBatch newMemStorage)
                        (JStr ''b'') = Some r
          \<and> getProp r ''key'' = JStr ''b''
          \<and> getProp r ''updatedBy'' = JNum 1"
    using inst ok mem hk prim kb by (auto simp: adminUser_def)
  have two: "length (getAllSiteSettings (upsertItems noClock adminUser 0 sampleBatch newMemStorage))
               = 2"
    by (simp add: sampleBatch_def sampleBatch_keys upsertSetting_def getSiteSetting_def
        getAllSiteSettings_def mapValues_def createSiteSetting_def settingData_def setProp_def
        mapSet_def getProp_def itemProp_def readProp_def newMemStorage_def Let_def)
  show ?thesis
    using admin items' resp ok mem hk prim stamped two by blast
qed

text \<open>
  An item that is \<^verbatim>\<open>null\<close> ends the loop where it stands: the items before it have been
  upserted and stay in the store, the items after it are not looked at, and the answer is
  500.
\<close>

lemma batchLoop_stops_at_null:
  assumes "\<forall>item \<in> set before. item \<noteq> JNull \<and> item \<noteq> JUndefined"
  shows "batchLoop clock u i (before @ JNull # rest) s results
           = (None, upsertItems clock u i before s)"
  using assms
proof (induction before arbitrary: i s results)
  case Nil
  show ?case by (simp add: readProp_null)
next
  case (Cons item before)
  from Cons.prems have ok: "item \<noteq> JNull" "item \<noteq> JUndefined" by simp_all
  from batchLoop_step [OF ok, of clock u i "before @ JNull # rest" s results] obtain r
    where "batchLoop clock u i (item # before @ JNull # rest) s results
             = batchLoop clock u (i + 1) (before @ JNull # rest)
                 (if hasKey item
                  then upsertSetting (clock i) u (itemProp item ''key'') (itemProp item ''value'') s
                  else s)
                 (if hasKey item then results @ [r] else results)"
    by blast
  then show ?case
    using Cons.IH Cons.prems by simp
qed

lemma batch_route_stops_at_null:
  assumes "role u = ''admin''"
    and "\<forall>item \<in> set before. item \<noteq> JNull \<and> item \<noteq> JUndefined"
  shows "postSiteSettingsBatchRoute clock s (Some u) (JArr (before @ JNull # rest))
           = (respond 500 (message ''Error updating site settings''),
              upsertItems clock u 0 before s)"
  using assms(1) batchLoop_stops_at_null [OF assms(2), of clock u 0 rest s "[]"]
  by (simp add: postSiteSettingsBatchRoute_def isAdmin_def)

text \<open>
  C5. \<^verbatim>\<open>POST /api/site-settings/batch\<close> is to skip every item lacking a \<^verbatim>\<open>key\<close> without
  reporting an error and to answer 200 with the count of the items not skipped. The
  handler does so for every item it can destructure, but not for \<^verbatim>\<open>null\<close>, which lacks a
  key as well: it reads the properties of the item before it tests the key. For the body
  \<^verbatim>\<open>[{key:"a",value:"1"}, null]\<close> the handler answers 500, the record for \<^verbatim>\<open>"a"\<close> already
  written, where the claim gives 200 with count 1; for the body \<^verbatim>\<open>[{key:"a",value:"1"}, 5]\<close>,
  whose second item lacks a key just the same, it answers 200 with count 1.
\<close>

theorem batch_with_null_item_answers_500:
  "hasKey (JObj [(''key'', JStr ''a''), (''value'', JStr ''1'')])
   \<and> \<not> hasKey JNull
   \<and> \<not> hasKey (JNum 5)
   \<and> postSiteSettingsBatchRoute noClock newMemStorage (Some adminUser)
         (JArr [JObj [(''key'', JStr ''a''), (''value'', JStr ''1'')], JNull])
       = (respond 500 (message ''Error updating site settings''),
          newMemStorage\<lparr>siteSettingsData :=
              [(Num 1, [(''key'', JStr ''a''), (''value'', JStr ''1''), (''updatedBy'', JNum 1),
                        (''id'', JNum 1), (''updatedAt'', JDate 0)])],
            siteSettingIdCounter := 2\<rparr>)
   \<and> postSiteSettingsBatchRoute noClock newMemStorage (Some adminUser)
         (JArr [JObj [(''key'', JStr ''a''), (''value'', JStr ''1'')], JNum 5])
       = (respond 200 (JObj [(''message'', JStr ''Settings updated''), (''count'', JNum 1)]),
          newMemStorage\<lparr>siteSettingsData :=
              [(Num 1, [(''key'', JStr ''a''), (''value'', JStr ''1''), (''updatedBy'', JNum 1),
                        (''id'', JNum 1), (''updatedAt'', JDate 0)])],
            siteSettingIdCounter := 2\<rparr>)"
  by (simp add: hasKey_def itemProp_def postSiteSettingsBatchRoute_def isAdmin_def adminUser_def
      readProp_def getProp_def getSiteSetting_def mapValues_def createSiteSetting_def
      settingData_def setProp_def mapSet_def newMemStorage_def noClock_def Let_def)

end
